theory Spec2Isabelle
  imports Complex_Main "HOL-Library.Log_Nat"
begin

section \<open>The ATM simulation of atm.c\<close>

text \<open>
  The program keeps one account in a struct \<open>ATMData\<close>, reads and writes it as the text
  file \<open>atm_data.txt\<close>, and reads its commands from the console. The embedding follows
  the C functions one by one:
  \<^item> the struct is a record and is passed and returned explicitly (the C code mutates it
    through a pointer);
  \<^item> the data file and the console input are character lists, read by models of the
    \<open>scanf\<close> conversions \<open>%s\<close>, \<open>%d\<close> and \<open>%lf\<close>, and written by models of
    \<open>printf\<close>'s \<open>%d\<close> and \<open>%.2f\<close>;
  \<^item> every message a function prints on a rejected request is the \<open>outcome\<close> it returns;
  \<^item> behaviour that C leaves undefined (a token longer than the buffer it is read into,
    an index outside \<open>txs\<close>, a number outside \<open>int\<close>) is a \<open>fault\<close>, the left
    summand of the result.

  A \<open>double\<close> is a value of the IEEE 754 binary64 format: a finite number, a negative
  zero, an infinity or a NaN. Sums and differences are rounded to the nearest double, and
  comparisons with a NaN are false, as the compiled code computes them.
\<close>

subsection \<open>Constants and data\<close>

abbreviation MAX_TX :: int where
  "MAX_TX \<equiv> 10"

abbreviation PIN_LENGTH :: nat where
  "PIN_LENGTH \<equiv> 6"

subsection \<open>The type \<open>double\<close>\<close>

text \<open>
  \<open>Finite x\<close> is the double of value \<open>x\<close> (\<open>Finite 0\<close> the positive zero). The
  arithmetic below always returns values of the format; a theorem about every \<open>double\<close>
  also covers \<open>Finite x\<close> for numbers \<open>x\<close> outside it. The sign and the payload of a NaN
  are not tracked.
\<close>

datatype double = Finite real | NegZero | PlusInf | MinusInf | NaN

fun dval :: "double \<Rightarrow> real" where
  "dval (Finite x) = x"
| "dval d = 0"

text \<open>Rounding to an integer, a tie going to the even neighbour.\<close>

definition round_half_even :: "real \<Rightarrow> int" where
  "round_half_even x =
     (let f = \<lfloor>x\<rfloor>; d = x - of_int f
      in if d < 1 / 2 then f else if 1 / 2 < d then f + 1 else if even f then f else f + 1)"

definition pow2 :: "int \<Rightarrow> real" where
  "pow2 k = (if 0 \<le> k then 2 ^ nat k else 1 / 2 ^ nat (- k))"

text \<open>The binary exponent of a positive number: \<open>pow2 (expo a) \<le> a < pow2 (expo a + 1)\<close>.\<close>

definition expo :: "real \<Rightarrow> int" where
  "expo a = (if 1 \<le> a then bitlen \<lfloor>a\<rfloor> - 1 else - bitlen (\<lceil>1 / a\<rceil> - 1))"

text \<open>
  A magnitude rounded to the nearest double, a tie going to the even significand: 53
  significant bits, with the spacing \<open>pow2 (- 1074)\<close> below \<open>pow2 (- 1022)\<close>. The result
  is \<open>None\<close> when the rounded magnitude reaches \<open>pow2 1024\<close> (overflow).
\<close>

definition round_mag :: "real \<Rightarrow> real option" where
  "round_mag a =
     (if a = 0 then Some 0
      else let u = pow2 (max (expo a) (- 1022) - 52);
               r = real_of_int (round_half_even (a / u)) * u
           in if pow2 1024 \<le> r then None else Some r)"

text \<open>The double nearest to the number of the given sign and magnitude.\<close>

definition mk_double :: "bool \<Rightarrow> real \<Rightarrow> double" where
  "mk_double neg a =
     (case round_mag a of
        None \<Rightarrow> if neg then MinusInf else PlusInf
      | Some r \<Rightarrow> if r = 0 then (if neg then NegZero else Finite 0)
                  else Finite (if neg then - r else r))"

definition fl :: "real \<Rightarrow> double" where
  "fl x = mk_double (x < 0) \<bar>x\<bar>"

text \<open>
  Addition: a NaN operand, or infinities of opposite signs, give NaN; an exact sum of
  zero is the positive zero unless both operands are negative zeros.
\<close>

fun dadd :: "double \<Rightarrow> double \<Rightarrow> double" where
  "dadd NaN b = NaN"
| "dadd a NaN = NaN"
| "dadd PlusInf MinusInf = NaN"
| "dadd MinusInf PlusInf = NaN"
| "dadd PlusInf b = PlusInf"
| "dadd a PlusInf = PlusInf"
| "dadd MinusInf b = MinusInf"
| "dadd a MinusInf = MinusInf"
| "dadd NegZero NegZero = NegZero"
| "dadd a b = fl (dval a + dval b)"

fun dneg :: "double \<Rightarrow> double" where
  "dneg (Finite x) = (if x = 0 then NegZero else Finite (- x))"
| "dneg NegZero = Finite 0"
| "dneg PlusInf = MinusInf"
| "dneg MinusInf = PlusInf"
| "dneg NaN = NaN"

text \<open>The comparisons \<open><=\<close> and \<open><\<close> of C: false when an operand is a NaN.\<close>

fun dle :: "double \<Rightarrow> double \<Rightarrow> bool" where
  "dle NaN b = False"
| "dle a NaN = False"
| "dle MinusInf b = True"
| "dle a PlusInf = True"
| "dle PlusInf b = False"
| "dle a MinusInf = False"
| "dle a b = (dval a \<le> dval b)"

fun dlt :: "double \<Rightarrow> double \<Rightarrow> bool" where
  "dlt NaN b = False"
| "dlt a NaN = False"
| "dlt PlusInf b = False"
| "dlt a MinusInf = False"
| "dlt MinusInf b = True"
| "dlt a PlusInf = True"
| "dlt a b = (dval a < dval b)"

text \<open>
  The operators of C on \<open>double\<close>: \<open>0\<close>, \<open>+\<close>, \<open>-\<close>, \<open><=\<close> and \<open><\<close> (\<open>a > b\<close> is
  \<open>b < a\<close>).
\<close>

instantiation double :: "{zero, plus, minus, ord}"
begin

definition zero_double :: double where
  "zero_double = Finite 0"

definition plus_double :: "double \<Rightarrow> double \<Rightarrow> double" where
  "plus_double a b = dadd a b"

definition minus_double :: "double \<Rightarrow> double \<Rightarrow> double" where
  "minus_double a b = dadd a (dneg b)"

definition less_eq_double :: "double \<Rightarrow> double \<Rightarrow> bool" where
  "less_eq_double a b = dle a b"

definition less_double :: "double \<Rightarrow> double \<Rightarrow> bool" where
  "less_double a b = dlt a b"

instance ..

end

subsection \<open>The structs and the file\<close>

record Transaction =
  type :: string
  amount :: double

text \<open>
  \<open>txs\<close> is the array \<open>Transaction txs[MAX_TX]\<close>, a function of the index; the model
  reads and writes it at indices \<open>0 .. MAX_TX - 1\<close> only. The strings \<open>pin\<close> and
  \<open>type\<close> are the C strings held in the character arrays (the characters before the
  terminating NUL).
\<close>

record ATMData =
  balance :: double
  pin :: string
  txs :: "nat \<Rightarrow> Transaction"
  tx_count :: int

text \<open>
  The file system as the program sees it: the contents of \<open>atm_data.txt\<close> (\<open>None\<close> when
  \<open>fopen(DATA_FILE, "r")\<close> fails), whether \<open>fopen(DATA_FILE, "w")\<close> succeeds, and a ghost
  counter of the calls of \<open>fopen(DATA_FILE, "w")\<close>.
\<close>

record disk =
  content :: "string option"
  writable :: bool
  fopen_w :: nat

datatype fault = BufferOverflow | IndexOutOfBounds | IntOutOfRange | NotModelled

text \<open>
  What a command reports:
  \<^item> \<open>Success\<close>: "Deposited ... successfully.", "Withdrawn ... successfully.",
    "PIN changed successfully.";
  \<^item> \<open>InvalidAmount\<close>: "Invalid amount.";
  \<^item> \<open>InsufficientFunds\<close>: "Insufficient funds. Current balance: ...";
  \<^item> \<open>PinMismatch\<close>: "PIN does not match.";
  \<^item> \<open>PinConfirmationMismatch\<close>: "PINs do not match. Aborting.";
  \<^item> \<open>NoInput\<close>: the silent \<open>return\<close> of \<open>change_pin\<close> when \<open>scanf\<close> reads no token.
\<close>

datatype outcome =
  Success | InvalidAmount | InsufficientFunds | PinMismatch | PinConfirmationMismatch | NoInput

subsection \<open>Formatted output: \<open>%d\<close> and \<open>%.2f\<close>\<close>

definition digit_char :: "nat \<Rightarrow> char" where
  "digit_char d = ''0123456789'' ! d"

fun show_nat :: "nat \<Rightarrow> string" where
  "show_nat n = (if n < 10 then [digit_char n] else show_nat (n div 10) @ [digit_char (n mod 10)])"

definition show_int :: "int \<Rightarrow> string" where
  "show_int i = (if i < 0 then CHR ''-'' # show_nat (nat (- i)) else show_nat (nat i))"

text \<open>
  \<open>%.2f\<close> prints a finite number rounded to a multiple of 1/100, a tie going to the
  even neighbour (the rounding of the C library under the default rounding mode), an
  infinity as \<open>inf\<close> and a NaN as \<open>nan\<close> (the C library writes \<open>-nan\<close> for a NaN with
  the sign bit set, which \<open>%lf\<close> reads as a NaN as well).
\<close>

definition cents :: "real \<Rightarrow> nat" where
  "cents x = nat (round_half_even (\<bar>x\<bar> * 100))"

fun fmt_2f :: "double \<Rightarrow> string" where
  "fmt_2f (Finite x) =
     (if x < 0 then ''-'' else []) @ show_nat (cents x div 100) @ ''.'' @
     [digit_char (cents x mod 100 div 10), digit_char (cents x mod 10)]"
| "fmt_2f NegZero = ''-0.00''"
| "fmt_2f PlusInf = ''inf''"
| "fmt_2f MinusInf = ''-inf''"
| "fmt_2f NaN = ''nan''"

text \<open>
  The double that \<open>%lf\<close> reads from the text \<open>fmt_2f d\<close>: \<open>d\<close> to two decimal places,
  rounded to the nearest double.
\<close>

fun round2 :: "double \<Rightarrow> double" where
  "round2 (Finite x) = mk_double (x < 0) (real (cents x) / 100)"
| "round2 d = d"

subsection \<open>Formatted input: \<open>%s\<close>, \<open>%d\<close> and \<open>%lf\<close>\<close>

text \<open>
  Each conversion takes the unread input and returns what it converted (\<open>None\<close> when the
  conversion fails, at the end of the input or at a character that does not fit) and the
  input left unread. All three skip leading white space.
\<close>

definition isspace :: "char \<Rightarrow> bool" where
  "isspace c \<longleftrightarrow> c = CHR '' '' \<or> c = CHR 0x09 \<or> c = CHR 0x0A \<or> c = CHR 0x0B \<or> c = CHR 0x0C \<or> c = CHR 0x0D"

definition isdigit :: "char \<Rightarrow> bool" where
  "isdigit c \<longleftrightarrow> c \<in> set ''0123456789''"

definition digit_val :: "char \<Rightarrow> nat" where
  "digit_val c = of_char c - 48"

definition nat_of_digits :: "string \<Rightarrow> nat" where
  "nat_of_digits ds = foldl (\<lambda>n c. 10 * n + digit_val c) 0 ds"

text \<open>
  \<open>%s\<close> into a buffer of \<open>cap\<close> characters: the token runs to the next white space and
  is stored with a terminating NUL, so a token of \<open>cap\<close> or more characters overflows the
  buffer. The C string stored ends at the first NUL of the token.
\<close>

definition scan_s :: "nat \<Rightarrow> string \<Rightarrow> fault + (string option \<times> string)" where
  "scan_s cap inp =
     (let s = dropWhile isspace inp;
          tok = takeWhile (\<lambda>c. \<not> isspace c) s;
          rest = dropWhile (\<lambda>c. \<not> isspace c) s
      in if tok = [] then Inr (None, rest)
         else if cap \<le> length tok then Inl BufferOverflow
         else Inr (Some (takeWhile (\<lambda>c. c \<noteq> CHR 0x00) tok), rest))"

definition scan_sign :: "string \<Rightarrow> bool \<times> string" where
  "scan_sign s =
     (case s of
        [] \<Rightarrow> (False, s)
      | c # cs \<Rightarrow> if c = CHR ''-'' then (True, cs) else if c = CHR ''+'' then (False, cs) else (False, s))"

text \<open>\<open>%d\<close>: an optional sign and decimal digits; the value has to fit an \<open>int\<close> of 32 bits.\<close>

definition scan_d :: "string \<Rightarrow> fault + (int option \<times> string)" where
  "scan_d inp =
     (let (neg, s1) = scan_sign (dropWhile isspace inp);
          ds = takeWhile isdigit s1;
          v = (if neg then - int (nat_of_digits ds) else int (nat_of_digits ds))
      in if ds = [] then Inr (None, s1)
         else if v < - (2 ^ 31) \<or> 2 ^ 31 \<le> v then Inl IntOutOfRange
         else Inr (Some v, dropWhile isdigit s1))"

text \<open>
  \<open>%lf\<close>: after an optional sign either \<open>nan\<close>, \<open>inf\<close> or \<open>infinity\<close> in letters of
  either case, or digits with an optional fraction and an optional exponent; the number
  read is rounded to the nearest double. A word or a number that breaks off fails the
  conversion. Not modelled (C libraries differ, or the syntax is rare): \<open>nan\<close> followed by
  a parenthesis, \<open>inf\<close> followed by an incomplete \<open>inity\<close>, the hexadecimal notation, and
  an exponent letter that no digit follows.
\<close>

fun match_word :: "(char \<times> char) list \<Rightarrow> string \<Rightarrow> nat" where
  "match_word [] s = 0"
| "match_word (p # ps) [] = 0"
| "match_word ((l, u) # ps) (c # cs) = (if c = l \<or> c = u then Suc (match_word ps cs) else 0)"

definition nan_word :: "(char \<times> char) list" where
  "nan_word = zip ''nan'' ''NAN''"

definition inf_word :: "(char \<times> char) list" where
  "inf_word = zip ''infinity'' ''INFINITY''"

definition hex_prefix :: "string \<Rightarrow> bool" where
  "hex_prefix s =
     (case s of
        [] \<Rightarrow> False
      | c # cs \<Rightarrow> c = CHR ''0'' \<and> (case cs of [] \<Rightarrow> False | x # _ \<Rightarrow> x = CHR ''x'' \<or> x = CHR ''X''))"

definition starts_paren :: "string \<Rightarrow> bool" where
  "starts_paren s = (case s of [] \<Rightarrow> False | c # _ \<Rightarrow> c = CHR ''('')"

definition scan_decimal :: "bool \<Rightarrow> string \<Rightarrow> fault + (double option \<times> string)" where
  "scan_decimal neg s1 =
     (let ip = takeWhile isdigit s1;
          s2 = dropWhile isdigit s1;
          (fp, s3) = (case s2 of
                        [] \<Rightarrow> ([], s2)
                      | c # cs \<Rightarrow> if c = CHR ''.'' then (takeWhile isdigit cs, dropWhile isdigit cs)
                                  else ([], s2));
          m = real (nat_of_digits ip) + real (nat_of_digits fp) / 10 ^ length fp
      in if ip = [] \<and> fp = [] then Inr (None, s3)
         else (case s3 of
                 [] \<Rightarrow> Inr (Some (mk_double neg m), s3)
               | c # cs \<Rightarrow>
                   if c = CHR ''e'' \<or> c = CHR ''E'' then
                     (let (eneg, s4) = scan_sign cs;
                          ed = takeWhile isdigit s4
                      in if ed = [] then Inl NotModelled
                         else Inr (Some (mk_double neg (if eneg then m / 10 ^ nat_of_digits ed
                                                        else m * 10 ^ nat_of_digits ed)),
                                   dropWhile isdigit s4))
                   else Inr (Some (mk_double neg m), s3)))"

definition scan_lf :: "string \<Rightarrow> fault + (double option \<times> string)" where
  "scan_lf inp =
     (let (neg, s1) = scan_sign (dropWhile isspace inp);
          kn = match_word nan_word s1;
          ki = match_word inf_word s1
      in if kn = 3 then
           (if starts_paren (drop 3 s1) then Inl NotModelled else Inr (Some NaN, drop 3 s1))
         else if 0 < kn then Inr (None, drop kn s1)
         else if ki = 3 \<or> ki = 8 then Inr (Some (if neg then MinusInf else PlusInf), drop ki s1)
         else if 3 < ki then Inl NotModelled
         else if 0 < ki then Inr (None, drop ki s1)
         else if hex_prefix s1 then Inl NotModelled
         else scan_decimal neg s1)"

text \<open>
  \<open>while (getchar() != '\n');\<close> discards the rest of the console line. At the end of the
  input \<open>getchar\<close> returns \<open>EOF\<close> for ever and the loop does not end: the result is
  \<open>None\<close>.
\<close>

fun clear_input :: "string \<Rightarrow> string option" where
  "clear_input [] = None"
| "clear_input (c # cs) = (if c = CHR 0x0A then Some cs else clear_input cs)"

subsection \<open>The functions of atm.c\<close>

definition init_default :: "ATMData \<Rightarrow> ATMData" where
  "init_default atm = atm\<lparr>balance := Finite 1000, pin := ''1234'', tx_count := 0\<rparr>"

text \<open>
  The loop of \<open>load_data\<close>, from index \<open>i\<close> on the unread file \<open>f\<close>. It returns the
  struct and the index at which it stopped. The token is read into \<open>char type[10]\<close>.
\<close>

function load_loop :: "ATMData \<Rightarrow> string \<Rightarrow> int \<Rightarrow> fault + (ATMData \<times> int)" where
  "load_loop atm f i =
     (if i < tx_count atm \<and> i < MAX_TX then
        (case scan_s 10 f of
           Inl e \<Rightarrow> Inl e
         | Inr (None, r) \<Rightarrow> Inr (atm, i)
         | Inr (Some ty, r) \<Rightarrow>
             (case scan_lf r of
                Inl e \<Rightarrow> Inl e
              | Inr (None, r') \<Rightarrow> Inr (atm, i)
              | Inr (Some a, r') \<Rightarrow>
                  load_loop (atm\<lparr>txs := (txs atm)(nat i := \<lparr>type = ty, amount = a\<rparr>)\<rparr>) r' (i + 1)))
      else Inr (atm, i))"
  by pat_completeness auto
termination
  by (relation "measure (\<lambda>(atm, f, i). nat (MAX_TX - i))") auto

text \<open>
  \<open>load_data\<close> returns 0 or 1 and the struct. The header's conversions assign in turn, so
  a header that fails at its second or third field has already changed the struct.
\<close>

definition load_data :: "ATMData \<Rightarrow> disk \<Rightarrow> fault + (int \<times> ATMData)" where
  "load_data atm d =
     (case content d of
        None \<Rightarrow> Inr (0, atm)
      | Some f \<Rightarrow>
          (case scan_lf f of
             Inl e \<Rightarrow> Inl e
           | Inr (None, r1) \<Rightarrow> Inr (0, atm)
           | Inr (Some b, r1) \<Rightarrow>
               (case scan_s PIN_LENGTH r1 of
                  Inl e \<Rightarrow> Inl e
                | Inr (None, r2) \<Rightarrow> Inr (0, atm\<lparr>balance := b\<rparr>)
                | Inr (Some p, r2) \<Rightarrow>
                    (case scan_d r2 of
                       Inl e \<Rightarrow> Inl e
                     | Inr (None, r3) \<Rightarrow> Inr (0, atm\<lparr>balance := b, pin := p\<rparr>)
                     | Inr (Some n, r3) \<Rightarrow>
                         (case load_loop (atm\<lparr>balance := b, pin := p, tx_count := n\<rparr>) r3 0 of
                            Inl e \<Rightarrow> Inl e
                          | Inr (atm', i) \<Rightarrow> Inr (1, atm'))))))"

definition tx_line :: "Transaction \<Rightarrow> string" where
  "tx_line t = type t @ '' '' @ fmt_2f (amount t) @ ''\<newline>''"

definition header_line :: "ATMData \<Rightarrow> string" where
  "header_line atm =
     fmt_2f (balance atm) @ '' '' @ pin atm @ '' '' @ show_int (tx_count atm) @ ''\<newline>''"

definition save_data :: "ATMData \<Rightarrow> disk \<Rightarrow> disk" where
  "save_data atm d =
     (if \<not> writable d then d\<lparr>fopen_w := fopen_w d + 1\<rparr>
      else d\<lparr>content :=
               Some (header_line atm @
                     concat (map (\<lambda>i. tx_line (txs atm i)) [0..<nat (min (tx_count atm) MAX_TX)])),
             fopen_w := fopen_w d + 1\<rparr>)"

text \<open>
  \<open>add_transaction\<close>: below \<open>MAX_TX\<close> the record goes to slot \<open>tx_count\<close> (a negative
  count indexes before the array); otherwise the loop
  \<open>for (i = 1; i < MAX_TX; ++i) txs[i - 1] = txs[i]\<close> shifts the slots and the record
  goes to the last one.
\<close>

definition add_transaction :: "ATMData \<Rightarrow> string \<Rightarrow> double \<Rightarrow> fault + ATMData" where
  "add_transaction atm ty a =
     (if tx_count atm < MAX_TX then
        (if tx_count atm < 0 then Inl IndexOutOfBounds
         else Inr (atm\<lparr>txs := (txs atm)(nat (tx_count atm) := \<lparr>type = ty, amount = a\<rparr>),
                       tx_count := tx_count atm + 1\<rparr>))
      else Inr (atm\<lparr>txs := (fold (\<lambda>i t. t(i - 1 := t i)) [1..<nat MAX_TX] (txs atm))
                               (nat (MAX_TX - 1) := \<lparr>type = ty, amount = a\<rparr>)\<rparr>))"

text \<open>
  \<open>verify_pin\<close>: up to three attempts read from the console; the result is the return
  value and the console input left.
\<close>

fun verify_loop :: "nat \<Rightarrow> ATMData \<Rightarrow> string \<Rightarrow> fault + (int \<times> string)" where
  "verify_loop 0 atm cin = Inr (0, cin)"
| "verify_loop (Suc tries) atm cin =
     (case scan_s PIN_LENGTH cin of
        Inl e \<Rightarrow> Inl e
      | Inr (None, r) \<Rightarrow> Inr (0, r)
      | Inr (Some input, r) \<Rightarrow> if input = pin atm then Inr (1, r) else verify_loop tries atm r)"

definition verify_pin :: "ATMData \<Rightarrow> string \<Rightarrow> fault + (int \<times> string)" where
  "verify_pin atm cin = verify_loop 3 atm cin"

text \<open>
  The commands take the struct, the file system and the console input, and return what
  they report, the struct, the file system and the console input left. The console is
  \<open>None\<close> when the command is still discarding input at the end of the console and so
  does not return; the other components are then the state it has reached.
\<close>

type_synonym result = "fault + (outcome \<times> ATMData \<times> disk \<times> string option)"

definition deposit :: "ATMData \<Rightarrow> disk \<Rightarrow> string \<Rightarrow> result" where
  "deposit atm d cin =
     (case scan_lf cin of
        Inl e \<Rightarrow> Inl e
      | Inr (None, r) \<Rightarrow> Inr (InvalidAmount, atm, d, clear_input r)
      | Inr (Some a, r) \<Rightarrow>
          if a \<le> 0 then Inr (InvalidAmount, atm, d, clear_input r)
          else (case add_transaction (atm\<lparr>balance := balance atm + a\<rparr>) ''Deposit'' a of
                  Inl e \<Rightarrow> Inl e
                | Inr atm' \<Rightarrow> Inr (Success, atm', save_data atm' d, Some r)))"

definition withdraw :: "ATMData \<Rightarrow> disk \<Rightarrow> string \<Rightarrow> result" where
  "withdraw atm d cin =
     (case scan_lf cin of
        Inl e \<Rightarrow> Inl e
      | Inr (None, r) \<Rightarrow> Inr (InvalidAmount, atm, d, clear_input r)
      | Inr (Some a, r) \<Rightarrow>
          if a \<le> 0 then Inr (InvalidAmount, atm, d, clear_input r)
          else if balance atm < a then Inr (InsufficientFunds, atm, d, Some r)
          else (case add_transaction (atm\<lparr>balance := balance atm - a\<rparr>) ''Withdraw'' a of
                  Inl e \<Rightarrow> Inl e
                | Inr atm' \<Rightarrow> Inr (Success, atm', save_data atm' d, Some r)))"

definition change_pin :: "ATMData \<Rightarrow> disk \<Rightarrow> string \<Rightarrow> result" where
  "change_pin atm d cin =
     (case scan_s PIN_LENGTH cin of
        Inl e \<Rightarrow> Inl e
      | Inr (None, r1) \<Rightarrow> Inr (NoInput, atm, d, Some r1)
      | Inr (Some oldpin, r1) \<Rightarrow>
          if oldpin \<noteq> pin atm then Inr (PinMismatch, atm, d, Some r1)
          else
            (case scan_s PIN_LENGTH r1 of
               Inl e \<Rightarrow> Inl e
             | Inr (None, r2) \<Rightarrow> Inr (NoInput, atm, d, Some r2)
             | Inr (Some newpin, r2) \<Rightarrow>
                 (case scan_s PIN_LENGTH r2 of
                    Inl e \<Rightarrow> Inl e
                  | Inr (None, r3) \<Rightarrow> Inr (NoInput, atm, d, Some r3)
                  | Inr (Some confirm, r3) \<Rightarrow>
                      if newpin \<noteq> confirm then Inr (PinConfirmationMismatch, atm, d, Some r3)
                      else Inr (Success, atm\<lparr>pin := newpin\<rparr>, save_data (atm\<lparr>pin := newpin\<rparr>) d, Some r3))))"

text \<open>
  The ledger: the records that \<open>save_data\<close> writes and \<open>load_data\<close> reads, slots
  \<open>0 .. min tx_count MAX_TX - 1\<close>, oldest first.
\<close>

definition ledger :: "ATMData \<Rightarrow> Transaction list" where
  "ledger atm = map (txs atm) [0..<nat (min (tx_count atm) MAX_TX)]"

subsection \<open>Reading back what was written\<close>

text \<open>
  A string that \<open>%s\<close> reads back as it was written into a buffer of \<open>cap\<close>
  characters: not empty, shorter than the buffer, without white space or NUL.
\<close>

definition token_ok :: "nat \<Rightarrow> string \<Rightarrow> bool" where
  "token_ok cap s \<longleftrightarrow> s \<noteq> [] \<and> length s < cap \<and> list_all (\<lambda>c. \<not> isspace c \<and> c \<noteq> CHR 0x00) s"

text \<open>A record as \<open>load_data\<close> reads it back: the amount to two decimal places.\<close>

definition round_tx :: "Transaction \<Rightarrow> Transaction" where
  "round_tx t = \<lparr>type = type t, amount = round2 (amount t)\<rparr>"

subsection \<open>States used as examples\<close>

text \<open>
  \<open>fresh_atm\<close> is the struct after \<open>init_default\<close> (balance 1000, PIN 1234, no
  transactions); \<open>init_default\<close> does not touch \<open>txs\<close>, here blank records.
\<close>

definition blank_txs :: "nat \<Rightarrow> Transaction" where
  "blank_txs i = \<lparr>type = [], amount = Finite 0\<rparr>"

definition fresh_atm :: ATMData where
  "fresh_atm = init_default \<lparr>balance = Finite 0, pin = [], txs = blank_txs, tx_count = 0\<rparr>"

definition empty_disk :: disk where
  "empty_disk = \<lparr>content = None, writable = True, fopen_w = 0\<rparr>"

text \<open>A data file with a negative balance, and the struct \<open>load_data\<close> makes of it.\<close>

definition disk_overdrawn :: disk where
  "disk_overdrawn = \<lparr>content = Some ''-5.00 1234 0\<newline>'', writable = True, fopen_w = 0\<rparr>"

definition overdrawn_atm :: ATMData where
  "overdrawn_atm = fresh_atm\<lparr>balance := Finite (- 5)\<rparr>"

text \<open>
  The structs after \<open>nan\<close> is entered as the amount of a withdrawal from \<open>fresh_atm\<close>,
  and of a deposit into it.
\<close>

definition nan_atm :: ATMData where
  "nan_atm = fresh_atm\<lparr>balance := NaN,
     txs := blank_txs(0 := \<lparr>type = ''Withdraw'', amount = NaN\<rparr>), tx_count := 1\<rparr>"

definition nan_deposit_atm :: ATMData where
  "nan_deposit_atm = fresh_atm\<lparr>balance := NaN,
     txs := blank_txs(0 := \<lparr>type = ''Deposit'', amount = NaN\<rparr>), tx_count := 1\<rparr>"








text \<open>
  The struct after a deposit of 500, and after a deposit of 0.001, into \<open>fresh_atm\<close>.
  The double nearest to 0.001 is \<open>1152921504606847 / 2 ^ 60\<close>, and the double nearest to
  the sum of 1000 and that is \<open>4398050909150511 / 2 ^ 42\<close>.
\<close>

definition deposited_atm :: ATMData where
  "deposited_atm = fresh_atm\<lparr>balance := Finite 1500,
     txs := blank_txs(0 := \<lparr>type = ''Deposit'', amount = Finite 500\<rparr>), tx_count := 1\<rparr>"

definition small_atm :: ATMData where
  "small_atm = fresh_atm\<lparr>balance := Finite (4398050909150511 / 4398046511104),
     txs := blank_txs(0 := \<lparr>type = ''Deposit'',
                            amount = Finite (1152921504606847 / 1152921504606846976)\<rparr>),
     tx_count := 1\<rparr>"

definition small_atm_reloaded :: ATMData where
  "small_atm_reloaded = fresh_atm\<lparr>balance := Finite 1000,
     txs := blank_txs(0 := \<lparr>type = ''Deposit'', amount = Finite 0\<rparr>), tx_count := 1\<rparr>"

text \<open>
  A data file whose header counts eleven transactions, with eleven lines, and the struct
  \<open>load_data\<close> makes of it.
\<close>

definition file_11 :: string where
  "file_11 = ''100.00 1234 11\<newline>Deposit 1.00\<newline>Deposit 1.00\<newline>Deposit 1.00\<newline>Deposit 1.00\<newline>Deposit 1.00\<newline>Deposit 1.00\<newline>Deposit 1.00\<newline>Deposit 1.00\<newline>Deposit 1.00\<newline>Deposit 1.00\<newline>Deposit 1.00\<newline>''"

definition disk_11 :: disk where
  "disk_11 = empty_disk\<lparr>content := Some file_11\<rparr>"

definition loaded_11 :: ATMData where
  "loaded_11 = fresh_atm\<lparr>balance := Finite 100,
     txs := (\<lambda>j. if j < 10 then \<lparr>type = ''Deposit'', amount = Finite 1\<rparr> else blank_txs j),
     tx_count := 11\<rparr>"

text \<open>
  A data file whose header counts three transactions and whose second line has no
  amount, and the struct \<open>load_data\<close> makes of it.
\<close>

definition file_short :: string where
  "file_short = ''100.00 1234 3\<newline>Deposit 5.00\<newline>Withdraw abc\<newline>Deposit 7.00\<newline>''"

definition disk_short :: disk where
  "disk_short = empty_disk\<lparr>content := Some file_short\<rparr>"

definition loaded_short :: ATMData where
  "loaded_short = fresh_atm\<lparr>balance := Finite 100,
     txs := blank_txs(0 := \<lparr>type = ''Deposit'', amount = Finite 5\<rparr>), tx_count := 3\<rparr>"

declare show_nat.simps [simp del]

declare load_loop.simps [simp del]

section \<open>Properties\<close>

subsection \<open>Rounding to a double\<close>

lemma round_half_even_int: "round_half_even (real_of_int k) = k"
  by (simp add: round_half_even_def)

lemma round_half_even_near:
  "\<bar>real_of_int (round_half_even y) - y\<bar> \<le> 1 / 2"
  unfolding round_half_even_def Let_def by (auto split: if_splits)

lemma round_half_even_nonneg:
  "0 \<le> y \<Longrightarrow> 0 \<le> round_half_even y"
  unfolding round_half_even_def Let_def by auto

lemma pow2_pos: "0 < pow2 k"
  by (simp add: pow2_def)

lemma pow2_nonpos: "k \<le> 0 \<Longrightarrow> pow2 k = 1 / 2 ^ nat (- k)"
  by (cases "k = 0") (simp_all add: pow2_def)

lemma bitlen_unique:
  assumes "2 ^ k \<le> n" "n < 2 ^ Suc k"
  shows "bitlen n = int k + 1"
proof (rule antisym)
  show "bitlen n \<le> int k + 1"
    using assms(2) by (simp add: bitlen_le_iff_power nat_add_distrib)
  show "int k + 1 \<le> bitlen n"
    using assms(1) by (simp add: bitlen_ge_iff_power nat_add_distrib)
qed

text \<open>The exponent of a number between two neighbouring powers of two.\<close>

lemma expo_ge_1:
  assumes "2 ^ k \<le> a" "a < 2 ^ Suc k"
  shows "expo a = int k"
proof -
  have 1: "1 \<le> a"
    using assms(1) one_le_power[of "2::real" k] by linarith
  have "(2::int) ^ k \<le> \<lfloor>a\<rfloor>"
    using assms(1) by (simp add: le_floor_iff)
  moreover have "\<lfloor>a\<rfloor> < 2 ^ Suc k"
    using assms(2) by (simp add: floor_less_iff)
  ultimately show ?thesis
    using 1 bitlen_unique[of k "\<lfloor>a\<rfloor>"] by (simp add: expo_def)
qed

lemma expo_lt_1:
  assumes "1 / 2 ^ Suc k \<le> a" "a < 1 / 2 ^ k"
  shows "expo a = - int (Suc k)"
proof -
  have pos: "0 < a"
    using assms(1) by (smt (verit) divide_pos_pos zero_less_power)
  have 1: "\<not> 1 \<le> a"
    using assms(2) one_le_power[of "2::real" k] by (smt (verit) divide_le_eq_1_pos zero_less_power)
  have lo: "2 ^ k < 1 / a"
    using assms(2) pos by (simp add: field_simps)
  have hi: "1 / a \<le> 2 ^ Suc k"
    using assms(1) pos by (simp add: field_simps)
  have "(2::int) ^ k < \<lceil>1 / a\<rceil>"
    using lo by (simp add: less_ceiling_iff)
  moreover have "\<lceil>1 / a\<rceil> \<le> 2 ^ Suc k"
    using hi by (simp add: ceiling_le_iff)
  ultimately have "bitlen (\<lceil>1 / a\<rceil> - 1) = int k + 1"
    by (intro bitlen_unique) simp_all
  then show ?thesis
    using 1 by (simp add: expo_def)
qed

lemma mk_double_zero [simp]: "mk_double neg 0 = (if neg then NegZero else Finite 0)"
  by (simp add: mk_double_def round_mag_def)

text \<open>An integer below \<open>2 ^ 53\<close> is a double.\<close>

lemma mk_double_int:
  assumes "0 < n" "n < 2 ^ 53"
  shows "mk_double neg (real_of_int n) = Finite (if neg then - real_of_int n else real_of_int n)"
proof -
  define e where "e = bitlen n - 1"
  have e0: "0 \<le> e"
    using assms(1) bitlen_ge_iff_power[of 1 n] by (simp add: e_def)
  have e52: "e \<le> 52"
    using assms(2) bitlen_le_iff_power[of n 53] by (simp add: e_def)
  have ex: "expo (real_of_int n) = e"
    using assms(1) by (simp add: expo_def e_def)
  define u where "u = pow2 (max e (- 1022) - 52)"
  have u: "u = 1 / 2 ^ nat (52 - e)"
    using e0 e52 by (simp add: u_def pow2_nonpos max_def)
  have q: "real_of_int n / u = real_of_int (n * 2 ^ nat (52 - e))"
    by (simp add: u)
  have r: "real_of_int (round_half_even (real_of_int n / u)) * u = real_of_int n"
    unfolding q round_half_even_int by (simp add: u)
  have "real_of_int n < 2 ^ 53"
    using assms(2) by (metis of_int_less_numeral_power_cancel_iff)
  also have "(2::real) ^ 53 \<le> 2 ^ 1024"
    by (rule power_increasing) simp_all
  finally have small: "\<not> pow2 1024 \<le> real_of_int n"
    by (simp add: pow2_def)
  have "round_mag (real_of_int n) = Some (real_of_int n)"
    using assms(1) small by (simp add: round_mag_def ex u_def[symmetric] r Let_def)
  then show ?thesis
    using assms(1) by (simp add: mk_double_def)
qed

lemma mk_double_numeral [simp]:
  "numeral k < (2::int) ^ 53 \<Longrightarrow>
     mk_double neg (numeral k) = Finite (if neg then - numeral k else numeral k)"
  using mk_double_int[of "numeral k" neg] by simp

lemma mk_double_one [simp]: "mk_double neg 1 = Finite (if neg then - 1 else 1)"
  using mk_double_int[of 1 neg] by simp

lemma fl_numeral [simp]:
  "numeral k < (2::int) ^ 53 \<Longrightarrow> fl (numeral k) = Finite (numeral k)"
  "numeral k < (2::int) ^ 53 \<Longrightarrow> fl (- numeral k) = Finite (- numeral k)"
  by (simp_all add: fl_def)

lemma fl_zero [simp]: "fl 0 = Finite 0"
  by (simp add: fl_def)

lemmas double_ops = plus_double_def minus_double_def less_eq_double_def less_double_def
  zero_double_def

text \<open>The doubles met in the examples.\<close>

lemma expo_values:
  "expo 10000000000000000 = 53" "expo 10000000000000001 = 53" "expo (1 / 1000) = - 10"
  "expo (4398050909150511 / 4398046511104) = 9"
  using expo_ge_1[of 53 10000000000000000] expo_ge_1[of 53 10000000000000001]
    expo_lt_1[of 9 "1 / 1000"] expo_ge_1[of 9 "4398050909150511 / 4398046511104"]
  by simp_all

lemma mk_double_values:
  "mk_double False 10000000000000000 = Finite 10000000000000000"
  "mk_double False 10000000000000001 = Finite 10000000000000000"
  "mk_double False (1 / 1000) = Finite (1152921504606847 / 1152921504606846976)"
  by (simp_all add: mk_double_def round_mag_def expo_values pow2_def round_half_even_def Let_def)


lemma sum_small:
  "Finite 1000 + Finite (1152921504606847 / 1152921504606846976) =
     Finite (4398050909150511 / 4398046511104)"
proof -
  let ?s = "1152922657528351582847 / 1152921504606846976 :: real"
  have s: "1000 + 1152921504606847 / 1152921504606846976 = ?s"
    by simp
  have e: "expo ?s = 9"
    using expo_ge_1[of 9 ?s] by simp
  have "mk_double False ?s = Finite (4398050909150511 / 4398046511104)"
    unfolding mk_double_def round_mag_def e
    by (simp add: pow2_def round_half_even_def Let_def)
  moreover have "Finite 1000 + Finite (1152921504606847 / 1152921504606846976) = mk_double False ?s"
    unfolding plus_double_def dadd.simps dval.simps s fl_def by simp
  ultimately show ?thesis
    by simp
qed

text \<open>The comparisons: what \<open>0 < a\<close>, \<open>a \<le> 0\<close> and \<open>a \<le> b\<close> exclude.\<close>

lemma dlt_not_dle: "dlt a b \<Longrightarrow> \<not> dle b a"
  by (cases a; cases b) simp_all


lemma pos_not_le: "0 < a \<Longrightarrow> \<not> a \<le> (0::double)"
  by (simp add: double_ops dlt_not_dle)


lemma nan_compare:
  "\<not> NaN \<le> (0::double)" "\<not> (0::double) \<le> NaN" "\<not> b < NaN" "\<not> NaN < b" "b - NaN = NaN"
  "b + NaN = NaN"
  by (cases b; simp add: double_ops)+

text \<open>Sums and differences that are not negative.\<close>

lemma round_mag_nonneg:
  assumes "round_mag a = Some r" "0 \<le> a"
  shows "0 \<le> r"
proof (cases "a = 0")
  case True
  then show ?thesis using assms(1) by (simp add: round_mag_def)
next
  case False
  define u where "u = pow2 (max (expo a) (- 1022) - 52)"
  have u: "0 < u" by (simp add: u_def pow2_pos)
  have "r = real_of_int (round_half_even (a / u)) * u"
    using assms(1) False by (simp add: round_mag_def Let_def u_def split: if_splits)
  moreover have "0 \<le> round_half_even (a / u)"
    using assms(2) u by (intro round_half_even_nonneg) simp
  ultimately show ?thesis
    using u by simp
qed

lemma fl_nonneg: "0 \<le> x \<Longrightarrow> dle (Finite 0) (fl x)"
  using round_mag_nonneg[of "\<bar>x\<bar>"]
  by (auto simp: fl_def mk_double_def split: option.splits)

lemma dadd_nonneg:
  assumes "dle (Finite 0) b" "\<not> dle a (Finite 0)" "a \<noteq> NaN"
  shows "dle (Finite 0) (dadd b a)"
  using assms by (cases b; cases a) (simp_all add: fl_nonneg)

lemma dsub_nonneg:
  assumes "dle (Finite 0) b" "\<not> dle a (Finite 0)" "\<not> dlt b a" "a \<noteq> NaN"
    and "\<not> (b = PlusInf \<and> a = PlusInf)"
  shows "dle (Finite 0) (dadd b (dneg a))"
  using assms by (cases b; cases a) (simp_all add: fl_nonneg)

subsection \<open>Console input used in the examples\<close>

lemmas scan_defs = scan_lf_def scan_decimal_def scan_d_def scan_s_def scan_sign_def
  hex_prefix_def starts_paren_def nan_word_def inf_word_def
  isspace_def isdigit_def nat_of_digits_def digit_val_def


lemma scan_lf_2000: "scan_lf ''2000\<newline>'' = Inr (Some (Finite 2000), ''\<newline>'')"
  by (simp add: scan_defs)

lemma scan_lf_minus_1: "scan_lf ''-1\<newline>'' = Inr (Some (Finite (- 1)), ''\<newline>'')"
  by (simp add: scan_defs)

lemma scan_lf_0: "scan_lf ''0\<newline>'' = Inr (Some (Finite 0), ''\<newline>'')"
  by (simp add: scan_defs)


lemma scan_lf_nan: "scan_lf ''nan\<newline>'' = Inr (Some NaN, ''\<newline>'')"
  by (simp add: scan_defs)

lemma scan_lf_small:
  "scan_lf ''0.001\<newline>'' = Inr (Some (Finite (1152921504606847 / 1152921504606846976)), ''\<newline>'')"
  by (simp add: scan_defs mk_double_values)

lemma scan_s_pins:
  "scan_s PIN_LENGTH ''1234 5678 5678\<newline>'' = Inr (Some ''1234'', '' 5678 5678\<newline>'')"
  "scan_s PIN_LENGTH '' 5678 5678\<newline>'' = Inr (Some ''5678'', '' 5678\<newline>'')"
  "scan_s PIN_LENGTH '' 5678\<newline>'' = Inr (Some ''5678'', ''\<newline>'')"
  "scan_s PIN_LENGTH ''1234 5678 5679\<newline>'' = Inr (Some ''1234'', '' 5678 5679\<newline>'')"
  "scan_s PIN_LENGTH '' 5678 5679\<newline>'' = Inr (Some ''5678'', '' 5679\<newline>'')"
  "scan_s PIN_LENGTH '' 5679\<newline>'' = Inr (Some ''5679'', ''\<newline>'')"
  "scan_s PIN_LENGTH ''4321 5678 5678\<newline>'' = Inr (Some ''4321'', '' 5678 5678\<newline>'')"
  "scan_s PIN_LENGTH ''1234\<newline>'' = Inr (Some ''1234'', ''\<newline>'')"
  "scan_s PIN_LENGTH ''5678\<newline>'' = Inr (Some ''5678'', ''\<newline>'')"
  "scan_s PIN_LENGTH ''\<newline>'' = Inr (None, [])"
  "scan_s PIN_LENGTH ''1234 1234 1234\<newline>'' = Inr (Some ''1234'', '' 1234 1234\<newline>'')"
  "scan_s PIN_LENGTH '' 1234 1234\<newline>'' = Inr (Some ''1234'', '' 1234\<newline>'')"
  "scan_s PIN_LENGTH '' 1234\<newline>'' = Inr (Some ''1234'', ''\<newline>'')"
  by (simp_all add: scan_s_def isspace_def)

lemma fresh_atm_fields:
  "balance fresh_atm = Finite 1000" "pin fresh_atm = ''1234''" "tx_count fresh_atm = 0"
  "txs fresh_atm = blank_txs" "ledger fresh_atm = []"
  by (simp_all add: fresh_atm_def init_default_def ledger_def)



subsection \<open>The ledger under \<open>add_transaction\<close>\<close>



lemma add_transaction_fields:
  "add_transaction atm ty a = Inr atm' \<Longrightarrow> balance atm' = balance atm \<and> pin atm' = pin atm"
  by (auto simp: add_transaction_def split: if_splits)






subsection \<open>Deposits, withdrawals and the balance\<close>

text \<open>
  From a balance that is not negative, \<open>deposit\<close>, \<open>withdraw\<close> and \<open>change_pin\<close>
  return a balance that is not negative when the amount read is a number (not a NaN) and
  an infinite amount does not meet an infinite balance.
\<close>

lemma balance_stays_nonnegative:
  assumes "0 \<le> balance atm"
    and "\<forall>r. scan_lf cin \<noteq> Inr (Some NaN, r)"
    and "balance atm = PlusInf \<longrightarrow> (\<forall>r. scan_lf cin \<noteq> Inr (Some PlusInf, r))"
  shows "(\<forall>oc atm' d' c'. deposit atm d cin = Inr (oc, atm', d', c') \<longrightarrow> 0 \<le> balance atm') \<and>
         (\<forall>oc atm' d' c'. withdraw atm d cin = Inr (oc, atm', d', c') \<longrightarrow> 0 \<le> balance atm') \<and>
         (\<forall>oc atm' d' c'. change_pin atm d cin = Inr (oc, atm', d', c') \<longrightarrow> 0 \<le> balance atm')"
proof (intro conjI allI impI)
  fix oc atm' d' c'
  assume "deposit atm d cin = Inr (oc, atm', d', c')"
  then show "0 \<le> balance atm'"
    using assms(1,2) dadd_nonneg[of "balance atm"]
    by (auto simp: deposit_def double_ops split: sum.splits option.splits if_splits
        dest!: add_transaction_fields)
next
  fix oc atm' d' c'
  assume "withdraw atm d cin = Inr (oc, atm', d', c')"
  then show "0 \<le> balance atm'"
    using assms dsub_nonneg[of "balance atm"]
    by (auto simp: withdraw_def double_ops split: sum.splits option.splits if_splits
        dest!: add_transaction_fields)
next
  fix oc atm' d' c'
  assume "change_pin atm d cin = Inr (oc, atm', d', c')"
  then show "0 \<le> balance atm'"
    using assms(1)
    by (auto simp: change_pin_def split: sum.splits option.splits if_splits)
qed

text \<open>
  Claim C1, at the amount \<open>nan\<close>. \<open>%lf\<close> converts the console line \<open>nan\<close> to a NaN.
  Both tests of \<open>withdraw\<close>, \<open>amount <= 0\<close> and \<open>amount > atm->balance\<close>, are false
  of a NaN, so from the balance 1000 the withdrawal reports success, records a
  withdrawal of NaN, saves, and leaves the balance NaN, for which \<open>0 <= balance\<close> is false.
  The test of \<open>deposit\<close> is false of a NaN as well, and the deposit leaves the balance NaN.
\<close>

theorem nan_amount_commits:
  "0 \<le> balance fresh_atm \<and>
   scan_lf ''nan\<newline>'' = Inr (Some NaN, ''\<newline>'') \<and>
   \<not> NaN \<le> (0::double) \<and> \<not> balance fresh_atm < NaN \<and>
   withdraw fresh_atm empty_disk ''nan\<newline>'' =
     Inr (Success, nan_atm, save_data nan_atm empty_disk, Some ''\<newline>'') \<and>
   balance nan_atm = NaN \<and> \<not> 0 \<le> balance nan_atm \<and>
   ledger nan_atm = [\<lparr>type = ''Withdraw'', amount = NaN\<rparr>] \<and>
   deposit fresh_atm empty_disk ''nan\<newline>'' =
     Inr (Success, nan_deposit_atm, save_data nan_deposit_atm empty_disk, Some ''\<newline>'') \<and>
   balance nan_deposit_atm = NaN"
proof -
  have 1: "0 \<le> balance fresh_atm"
    by (simp add: fresh_atm_fields double_ops)
  have 2: "fresh_atm\<lparr>balance := NaN,
      txs := blank_txs(0 := \<lparr>type = ''Withdraw'', amount = NaN\<rparr>), tx_count := 1\<rparr> = nan_atm"
    "fresh_atm\<lparr>balance := NaN,
      txs := blank_txs(0 := \<lparr>type = ''Deposit'', amount = NaN\<rparr>), tx_count := 1\<rparr> = nan_deposit_atm"
    by (simp_all add: nan_atm_def nan_deposit_atm_def)
  have 3: "withdraw fresh_atm empty_disk ''nan\<newline>'' =
     Inr (Success, nan_atm, save_data nan_atm empty_disk, Some ''\<newline>'')"
    by (simp add: withdraw_def scan_lf_nan nan_compare add_transaction_def fresh_atm_fields 2)
  have 4: "balance nan_atm = NaN" "ledger nan_atm = [\<lparr>type = ''Withdraw'', amount = NaN\<rparr>]"
    "balance nan_deposit_atm = NaN"
    by (simp_all add: nan_atm_def nan_deposit_atm_def ledger_def)
  have 5: "deposit fresh_atm empty_disk ''nan\<newline>'' =
     Inr (Success, nan_deposit_atm, save_data nan_deposit_atm empty_disk, Some ''\<newline>'')"
    by (simp add: deposit_def scan_lf_nan nan_compare add_transaction_def fresh_atm_fields 2)
  show ?thesis
    using 1 3 4 5 by (simp add: scan_lf_nan nan_compare)
qed

text \<open>
  Claim C2, as amended. A withdrawal of a positive amount above the balance reports
  \<open>InsufficientFunds\<close> and returns the struct (balance and ledger) and the file system
  (contents and the count of writes) as they were. The amount has to be positive: the
  test \<open>amount <= 0\<close> comes first.
\<close>

theorem overdraw_rejected:
  assumes "scan_lf cin = Inr (Some a, r)" and "0 < a" and "balance atm < a"
  shows "withdraw atm d cin = Inr (InsufficientFunds, atm, d, Some r)"
  using assms pos_not_le[OF assms(2)] by (simp add: withdraw_def)

theorem overdraw_rejected_witness:
  "scan_lf ''2000\<newline>'' = Inr (Some (Finite 2000), ''\<newline>'') \<and> balance fresh_atm < Finite 2000 \<and>
   withdraw fresh_atm empty_disk ''2000\<newline>'' =
     Inr (InsufficientFunds, fresh_atm, empty_disk, Some ''\<newline>'')"
proof -
  have a: "0 < Finite 2000"
    by (simp add: double_ops)
  have b: "balance fresh_atm < Finite 2000"
    by (simp add: fresh_atm_fields double_ops)
  show ?thesis
    using overdraw_rejected[OF scan_lf_2000 a b, where d = empty_disk] scan_lf_2000 b by simp
qed

text \<open>
  Claim C2 as stated fails where the balance is negative and the amount lies between it
  and zero. \<open>load_data\<close> takes the balance -5 from a data file; the amount -1 is above
  that balance, and the withdrawal reports \<open>InvalidAmount\<close>.
\<close>

theorem overdraw_below_zero_counterexample:
  "load_data fresh_atm disk_overdrawn = Inr (1, overdrawn_atm) \<and>
   scan_lf ''-1\<newline>'' = Inr (Some (Finite (- 1)), ''\<newline>'') \<and>
   balance overdrawn_atm < Finite (- 1) \<and>
   withdraw overdrawn_atm disk_overdrawn ''-1\<newline>'' =
     Inr (InvalidAmount, overdrawn_atm, disk_overdrawn, Some [])"
proof -
  have "load_data fresh_atm disk_overdrawn = Inr (1, overdrawn_atm)"
    by (simp add: load_data_def disk_overdrawn_def scan_defs load_loop.simps overdrawn_atm_def
        fresh_atm_def init_default_def)
  moreover have "withdraw overdrawn_atm disk_overdrawn ''-1\<newline>'' =
     Inr (InvalidAmount, overdrawn_atm, disk_overdrawn, Some [])"
    by (simp add: withdraw_def scan_lf_minus_1 double_ops)
  moreover have "balance overdrawn_atm < Finite (- 1)"
    by (simp add: overdrawn_atm_def double_ops)
  ultimately show ?thesis
    using scan_lf_minus_1 by simp
qed

text \<open>
  Claim C3. An amount that is zero or negative makes \<open>deposit\<close> and \<open>withdraw\<close> report
  \<open>InvalidAmount\<close>; the struct and the file system are returned as they were. The last
  component is the console after the rest of the line is discarded.
\<close>

theorem nonpositive_amount_rejected:
  assumes "scan_lf cin = Inr (Some a, r)" and "a \<le> 0"
  shows "deposit atm d cin = Inr (InvalidAmount, atm, d, clear_input r) \<and>
         withdraw atm d cin = Inr (InvalidAmount, atm, d, clear_input r)"
  using assms by (simp add: deposit_def withdraw_def)

theorem nonpositive_amount_rejected_witness:
  "deposit fresh_atm empty_disk ''-1\<newline>'' = Inr (InvalidAmount, fresh_atm, empty_disk, Some []) \<and>
   withdraw fresh_atm empty_disk ''0\<newline>'' = Inr (InvalidAmount, fresh_atm, empty_disk, Some [])"
proof -
  have a: "Finite (- 1) \<le> 0" "Finite 0 \<le> 0"
    by (simp_all add: double_ops)
  show ?thesis
    using nonpositive_amount_rejected[OF scan_lf_minus_1 a(1), where atm = fresh_atm and d = empty_disk]
      nonpositive_amount_rejected[OF scan_lf_0 a(2), where atm = fresh_atm and d = empty_disk]
    by simp
qed




subsection \<open>Changing the PIN\<close>

lemma verify_loop_3:
  "verify_loop 3 atm cin = verify_loop (Suc (Suc (Suc 0))) atm cin"
  by (simp add: numeral_3_eq_3)

text \<open>
  Claim C8. \<open>change_pin\<close> reports \<open>PinMismatch\<close> when the first token differs from the
  stored PIN, and \<open>PinConfirmationMismatch\<close> when the second and third tokens differ,
  returning the struct and the file system as they were; when they agree it stores the
  new PIN and saves. From the PIN 1234, the input \<open>1234 5678 5678\<close> succeeds, and then
  \<open>verify_pin\<close> returns 0 when 1234 is entered (once before the console ends, or three
  times) and 1 when 5678 is entered.
\<close>

theorem change_pin_checks:
  "(\<forall>old r1. scan_s PIN_LENGTH cin = Inr (Some old, r1) \<and> old \<noteq> pin atm \<longrightarrow>
      change_pin atm d cin = Inr (PinMismatch, atm, d, Some r1)) \<and>
   (\<forall>r1 new r2 confirm r3.
      scan_s PIN_LENGTH cin = Inr (Some (pin atm), r1) \<and>
      scan_s PIN_LENGTH r1 = Inr (Some new, r2) \<and>
      scan_s PIN_LENGTH r2 = Inr (Some confirm, r3) \<longrightarrow>
      (new \<noteq> confirm \<longrightarrow>
         change_pin atm d cin = Inr (PinConfirmationMismatch, atm, d, Some r3)) \<and>
      (new = confirm \<longrightarrow>
         change_pin atm d cin =
           Inr (Success, atm\<lparr>pin := new\<rparr>, save_data (atm\<lparr>pin := new\<rparr>) d, Some r3))) \<and>
   (pin atm = ''1234'' \<longrightarrow>
      (\<exists>atm'. change_pin atm d ''1234 5678 5678\<newline>'' =
                Inr (Success, atm', save_data atm' d, Some ''\<newline>'') \<and>
         pin atm' = ''5678'' \<and>
         verify_pin atm' ''1234\<newline>'' = Inr (0, []) \<and>
         verify_pin atm' ''1234 1234 1234\<newline>'' = Inr (0, ''\<newline>'') \<and>
         verify_pin atm' ''5678\<newline>'' = Inr (1, ''\<newline>'')))"
proof (intro conjI allI impI)
  fix old r1
  assume "scan_s PIN_LENGTH cin = Inr (Some old, r1) \<and> old \<noteq> pin atm"
  then show "change_pin atm d cin = Inr (PinMismatch, atm, d, Some r1)"
    by (simp add: change_pin_def)
next
  fix r1 new r2 confirm r3
  assume "scan_s PIN_LENGTH cin = Inr (Some (pin atm), r1) \<and>
      scan_s PIN_LENGTH r1 = Inr (Some new, r2) \<and>
      scan_s PIN_LENGTH r2 = Inr (Some confirm, r3)" and "new \<noteq> confirm"
  then show "change_pin atm d cin = Inr (PinConfirmationMismatch, atm, d, Some r3)"
    by (simp add: change_pin_def)
next
  fix r1 new r2 confirm r3
  assume "scan_s PIN_LENGTH cin = Inr (Some (pin atm), r1) \<and>
      scan_s PIN_LENGTH r1 = Inr (Some new, r2) \<and>
      scan_s PIN_LENGTH r2 = Inr (Some confirm, r3)" and "new = confirm"
  then show "change_pin atm d cin =
           Inr (Success, atm\<lparr>pin := new\<rparr>, save_data (atm\<lparr>pin := new\<rparr>) d, Some r3)"
    by (simp add: change_pin_def)
next
  assume p: "pin atm = ''1234''"
  let ?atm = "atm\<lparr>pin := ''5678''\<rparr>"
  have "change_pin atm d ''1234 5678 5678\<newline>'' =
          Inr (Success, ?atm, save_data ?atm d, Some ''\<newline>'')"
    by (simp add: change_pin_def scan_s_pins p)
  moreover have "verify_pin ?atm ''1234\<newline>'' = Inr (0, [])"
    by (simp add: verify_pin_def verify_loop_3 scan_s_pins)
  moreover have "verify_pin ?atm ''1234 1234 1234\<newline>'' = Inr (0, ''\<newline>'')"
    by (simp add: verify_pin_def verify_loop_3 scan_s_pins)
  moreover have "verify_pin ?atm ''5678\<newline>'' = Inr (1, ''\<newline>'')"
    by (simp add: verify_pin_def verify_loop_3 scan_s_pins)
  ultimately show "\<exists>atm'. change_pin atm d ''1234 5678 5678\<newline>'' =
                Inr (Success, atm', save_data atm' d, Some ''\<newline>'') \<and>
         pin atm' = ''5678'' \<and>
         verify_pin atm' ''1234\<newline>'' = Inr (0, []) \<and>
         verify_pin atm' ''1234 1234 1234\<newline>'' = Inr (0, ''\<newline>'') \<and>
         verify_pin atm' ''5678\<newline>'' = Inr (1, ''\<newline>'')"
    by (intro exI[of _ ?atm]) simp
qed

theorem change_pin_checks_witness:
  "change_pin fresh_atm empty_disk ''4321 5678 5678\<newline>'' =
     Inr (PinMismatch, fresh_atm, empty_disk, Some '' 5678 5678\<newline>'') \<and>
   change_pin fresh_atm empty_disk ''1234 5678 5679\<newline>'' =
     Inr (PinConfirmationMismatch, fresh_atm, empty_disk, Some ''\<newline>'') \<and>
   change_pin fresh_atm empty_disk ''1234 5678 5678\<newline>'' =
     Inr (Success, fresh_atm\<lparr>pin := ''5678''\<rparr>, save_data (fresh_atm\<lparr>pin := ''5678''\<rparr>) empty_disk,
          Some ''\<newline>'') \<and>
   verify_pin (fresh_atm\<lparr>pin := ''5678''\<rparr>) ''1234\<newline>'' = Inr (0, []) \<and>
   verify_pin (fresh_atm\<lparr>pin := ''5678''\<rparr>) ''5678\<newline>'' = Inr (1, ''\<newline>'')"
proof -
  note t = change_pin_checks[where atm = fresh_atm and d = empty_disk]
  note p = fresh_atm_fields(2)
  have 1: "change_pin fresh_atm empty_disk ''4321 5678 5678\<newline>'' =
     Inr (PinMismatch, fresh_atm, empty_disk, Some '' 5678 5678\<newline>'')"
    using t[where cin = "''4321 5678 5678\<newline>''"] scan_s_pins(7) p by simp
  have 2: "change_pin fresh_atm empty_disk ''1234 5678 5679\<newline>'' =
     Inr (PinConfirmationMismatch, fresh_atm, empty_disk, Some ''\<newline>'')"
    using t[where cin = "''1234 5678 5679\<newline>''"] scan_s_pins(4,5,6) p by simp
  have 3: "change_pin fresh_atm empty_disk ''1234 5678 5678\<newline>'' =
     Inr (Success, fresh_atm\<lparr>pin := ''5678''\<rparr>, save_data (fresh_atm\<lparr>pin := ''5678''\<rparr>) empty_disk,
          Some ''\<newline>'')"
    using t[where cin = "''1234 5678 5678\<newline>''"] scan_s_pins(1,2,3) p by simp
  obtain atm' where 4: "change_pin fresh_atm empty_disk ''1234 5678 5678\<newline>'' =
                Inr (Success, atm', save_data atm' empty_disk, Some ''\<newline>'')"
    and 5: "verify_pin atm' ''1234\<newline>'' = Inr (0, [])"
      "verify_pin atm' ''5678\<newline>'' = Inr (1, ''\<newline>'')"
    using t[where cin = "[]"] p by blast
  from 3 4 have "atm' = fresh_atm\<lparr>pin := ''5678''\<rparr>" by simp
  with 1 2 3 5 show ?thesis by simp
qed

text \<open>
  Claim C10. Whatever \<open>change_pin\<close> reports, the struct it returns differs from the one
  it was given in the field \<open>pin\<close> at most: the balance, the count and every slot of
  \<open>txs\<close> are the same. When it does not report success, the struct and the file system
  are the same.
\<close>

theorem change_pin_frame:
  assumes "change_pin atm d cin = Inr (oc, atm', d', c')"
  shows "atm' = atm\<lparr>pin := pin atm'\<rparr> \<and> balance atm' = balance atm \<and>
         tx_count atm' = tx_count atm \<and> txs atm' = txs atm \<and> ledger atm' = ledger atm \<and>
         (oc \<noteq> Success \<longrightarrow> atm' = atm \<and> d' = d)"
  using assms
  by (auto simp: change_pin_def ledger_def split: sum.splits option.splits if_splits)

theorem change_pin_frame_witness:
  "change_pin fresh_atm empty_disk ''1234 5678 5678\<newline>'' =
     Inr (Success, fresh_atm\<lparr>pin := ''5678''\<rparr>, save_data (fresh_atm\<lparr>pin := ''5678''\<rparr>) empty_disk,
          Some ''\<newline>'') \<and>
   balance (fresh_atm\<lparr>pin := ''5678''\<rparr>) = balance fresh_atm \<and>
   ledger (fresh_atm\<lparr>pin := ''5678''\<rparr>) = ledger fresh_atm \<and>
   change_pin fresh_atm empty_disk ''4321 5678 5678\<newline>'' =
     Inr (PinMismatch, fresh_atm, empty_disk, Some '' 5678 5678\<newline>'')"
proof -
  have 1: "change_pin fresh_atm empty_disk ''1234 5678 5678\<newline>'' =
     Inr (Success, fresh_atm\<lparr>pin := ''5678''\<rparr>, save_data (fresh_atm\<lparr>pin := ''5678''\<rparr>) empty_disk,
          Some ''\<newline>'')"
    by (simp add: change_pin_def scan_s_pins fresh_atm_fields)
  have 2: "change_pin fresh_atm empty_disk ''4321 5678 5678\<newline>'' =
     Inr (PinMismatch, fresh_atm, empty_disk, Some '' 5678 5678\<newline>'')"
    by (simp add: change_pin_def scan_s_pins fresh_atm_fields)
  show ?thesis
    using change_pin_frame[OF 1] change_pin_frame[OF 2] 1 2 by simp
qed


subsection \<open>Digits and tokens\<close>

lemma digit_cases:
  assumes "d < (10::nat)"
  shows "d = 0 \<or> d = 1 \<or> d = 2 \<or> d = 3 \<or> d = 4 \<or> d = 5 \<or> d = 6 \<or> d = 7 \<or> d = 8 \<or> d = 9"
  using assms by arith

lemma digit_char_props:
  assumes "d < 10"
  shows "isdigit (digit_char d)" "digit_val (digit_char d) = d" "\<not> isspace (digit_char d)"
    "digit_char d \<noteq> CHR 0x00"
  using digit_cases[OF assms]
  by (auto simp: digit_char_def isdigit_def digit_val_def isspace_def)

lemma isdigit_not:
  "isdigit c \<Longrightarrow> \<not> isspace c \<and> c \<noteq> CHR ''-'' \<and> c \<noteq> CHR ''+'' \<and> c \<noteq> CHR ''.'' \<and>
     c \<noteq> CHR ''e'' \<and> c \<noteq> CHR ''E'' \<and> c \<noteq> CHR ''x'' \<and> c \<noteq> CHR ''X''"
  by (auto simp: isdigit_def isspace_def)

lemma not_isdigit:
  "\<not> isdigit (CHR '' '')" "\<not> isdigit (CHR ''\<newline>'')" "\<not> isdigit (CHR ''.'')"
  by (simp_all add: isdigit_def)

lemma nat_of_digits_snoc:
  "nat_of_digits (ds @ [c]) = 10 * nat_of_digits ds + digit_val c"
  by (simp add: nat_of_digits_def)

lemma show_nat_digits: "list_all isdigit (show_nat n)"
proof (induction n rule: show_nat.induct)
  case (1 n)
  then show ?case
    by (subst show_nat.simps) (simp add: digit_char_props)
qed

lemma show_nat_nonempty: "show_nat n \<noteq> []"
  by (subst show_nat.simps) simp

lemma nat_of_digits_show_nat: "nat_of_digits (show_nat n) = n"
proof (induction n rule: show_nat.induct)
  case (1 n)
  show ?case
  proof (cases "n < 10")
    case True
    then show ?thesis
      by (subst show_nat.simps) (simp add: nat_of_digits_def digit_char_props)
  next
    case False
    then show ?thesis
      using 1 by (subst show_nat.simps) (simp add: nat_of_digits_snoc digit_char_props)
  qed
qed

lemma takeWhile_digits:
  assumes "list_all isdigit ds" "\<not> isdigit c"
  shows "takeWhile isdigit (ds @ c # rest) = ds" "dropWhile isdigit (ds @ c # rest) = c # rest"
  using assms by (induction ds) auto

lemma skip_space:
  assumes "list_all isspace ws" "\<not> isspace c"
  shows "dropWhile isspace (ws @ c # rest) = c # rest"
  using assms by (induction ws) auto

lemma scan_s_token:
  assumes "list_all isspace ws" "token_ok cap tok" "isspace c"
  shows "scan_s cap (ws @ tok @ c # rest) = Inr (Some tok, c # rest)"
proof -
  obtain t ts where tok: "tok = t # ts" "\<not> isspace t"
    using assms(2) by (cases tok) (auto simp: token_ok_def)
  have all: "list_all (\<lambda>c. \<not> isspace c) tok" "list_all (\<lambda>c. c \<noteq> CHR 0x00) tok"
    using assms(2) by (auto simp: token_ok_def list_all_iff)
  have 1: "dropWhile isspace (ws @ tok @ c # rest) = tok @ c # rest"
    using skip_space[OF assms(1) tok(2), of "ts @ c # rest"] tok(1) by simp
  have 2: "takeWhile (\<lambda>c. \<not> isspace c) (tok @ c # rest) = tok"
    "dropWhile (\<lambda>c. \<not> isspace c) (tok @ c # rest) = c # rest"
    using all(1) assms(3) by (induction tok) auto
  have 3: "takeWhile (\<lambda>c. c \<noteq> CHR 0x00) tok = tok"
    using all(2) by (induction tok) auto
  show ?thesis
    using assms(2) by (simp add: scan_s_def 1 2 3 token_ok_def)
qed

lemma show_nat_head:
  "\<exists>c cs. show_nat n = c # cs \<and> isdigit c \<and> list_all isdigit cs"
  using show_nat_digits[of n] show_nat_nonempty[of n] by (cases "show_nat n") auto

lemma scan_sign_digit:
  "isdigit c \<Longrightarrow> scan_sign (c # cs) = (False, c # cs)"
  by (auto simp: scan_sign_def dest: isdigit_not)

lemma scan_sign_minus:
  "scan_sign (CHR ''-'' # cs) = (True, cs)"
  by (simp add: scan_sign_def)

lemma scan_d_show_int:
  assumes "list_all isspace ws" "\<not> isdigit c" "- (2 ^ 31) \<le> n" "n < 2 ^ 31"
  shows "scan_d (ws @ show_int n @ c # rest) = Inr (Some n, c # rest)"
proof (cases "n < 0")
  case True
  let ?ds = "show_nat (nat (- n))"
  have 1: "dropWhile isspace (ws @ show_int n @ c # rest) = CHR ''-'' # ?ds @ c # rest"
    using skip_space[OF assms(1), of "CHR ''-''" "?ds @ c # rest"] True
    by (simp add: show_int_def isspace_def)
  show ?thesis
    using True assms(3,4)
    by (simp add: scan_d_def 1 scan_sign_minus takeWhile_digits[OF show_nat_digits assms(2)]
        show_nat_nonempty nat_of_digits_show_nat)
next
  case False
  let ?ds = "show_nat (nat n)"
  obtain x xs where ds: "?ds = x # xs" "isdigit x"
    using show_nat_head[of "nat n"] by blast
  have 1: "dropWhile isspace (ws @ show_int n @ c # rest) = ?ds @ c # rest"
    using skip_space[OF assms(1), of x "xs @ c # rest"] False ds isdigit_not[OF ds(2)]
    by (simp add: show_int_def)
  have 2: "scan_sign (?ds @ c # rest) = (False, ?ds @ c # rest)"
    using scan_sign_digit[OF ds(2), of "xs @ c # rest"] ds(1) by simp
  show ?thesis
    using False assms(3,4)
    by (simp add: scan_d_def 1 2 takeWhile_digits[OF show_nat_digits assms(2)]
        show_nat_nonempty nat_of_digits_show_nat)
qed

subsection \<open>\<open>%lf\<close> reads back what \<open>%.2f\<close> wrote\<close>

lemma isspace_not:
  "isspace c \<Longrightarrow> \<not> isdigit c \<and> c \<noteq> CHR ''e'' \<and> c \<noteq> CHR ''E'' \<and> c \<noteq> CHR ''i'' \<and>
     c \<noteq> CHR ''I'' \<and> c \<noteq> CHR ''(''"
  by (auto simp: isdigit_def isspace_def)

lemma digit_no_word:
  "isdigit c \<Longrightarrow> match_word nan_word (c # cs) = 0 \<and> match_word inf_word (c # cs) = 0"
  by (auto simp: isdigit_def nan_word_def inf_word_def)

lemma hex_prefix_digits:
  assumes "isdigit h" "list_all isdigit t"
  shows "\<not> hex_prefix (h # t @ CHR ''.'' # rest)"
proof (cases t)
  case Nil
  then show ?thesis
    by (simp add: hex_prefix_def)
next
  case (Cons x xs)
  then have "isdigit x" using assms(2) by simp
  then show ?thesis
    using isdigit_not[of x] Cons by (simp add: hex_prefix_def)
qed

lemma scan_lf_plain:
  assumes "list_all isspace ws" "list_all isdigit ip" "ip \<noteq> []" "list_all isdigit fp" "isspace c"
    and "sg = (if neg then ''-'' else [])"
  shows "scan_lf (ws @ sg @ ip @ CHR ''.'' # fp @ c # rest) =
           Inr (Some (mk_double neg
                        (real (nat_of_digits ip) + real (nat_of_digits fp) / 10 ^ length fp)),
                c # rest)"
proof -
  let ?body = "ip @ CHR ''.'' # fp @ c # rest"
  obtain h t where ip: "ip = h # t" "isdigit h" "list_all isdigit t"
    using assms(2,3) by (cases ip) auto
  have 1: "dropWhile isspace (ws @ sg @ ?body) = sg @ ?body"
  proof (cases neg)
    case True
    then show ?thesis
      using skip_space[OF assms(1), of "CHR ''-''" ?body] assms(6) by (simp add: isspace_def)
  next
    case False
    then show ?thesis
      using skip_space[OF assms(1), of h "t @ CHR ''.'' # fp @ c # rest"] isdigit_not[OF ip(2)] ip(1) assms(6)
      by simp
  qed
  have 2: "scan_sign (sg @ ?body) = (neg, ?body)"
    using scan_sign_digit[OF ip(2), of "t @ CHR ''.'' # fp @ c # rest"] ip(1) assms(6)
    by (simp add: scan_sign_minus)
  have 3: "match_word nan_word ?body = 0" "match_word inf_word ?body = 0" "\<not> hex_prefix ?body"
    using digit_no_word[OF ip(2), of "t @ CHR ''.'' # fp @ c # rest"] hex_prefix_digits[OF ip(2,3)] ip(1)
    by simp_all
  note 4 = takeWhile_digits[OF assms(2) not_isdigit(3), of "fp @ c # rest"]
  have nd: "\<not> isdigit c" "c \<noteq> CHR ''e''" "c \<noteq> CHR ''E''"
    using isspace_not[OF assms(5)] by simp_all
  note 5 = takeWhile_digits[OF assms(4) nd(1), of rest]
  show ?thesis
    using assms(3) nd by (simp add: scan_lf_def scan_decimal_def 1 2 3 4 5)
qed

lemma scan_lf_word:
  assumes "list_all isspace ws" "isspace c"
  shows "scan_lf (ws @ ''nan'' @ c # rest) = Inr (Some NaN, c # rest)"
    and "scan_lf (ws @ ''inf'' @ c # rest) = Inr (Some PlusInf, c # rest)"
    and "scan_lf (ws @ ''-inf'' @ c # rest) = Inr (Some MinusInf, c # rest)"
proof -
  have 1: "dropWhile isspace (ws @ CHR ''n'' # r) = CHR ''n'' # r"
    "dropWhile isspace (ws @ CHR ''i'' # r) = CHR ''i'' # r"
    "dropWhile isspace (ws @ CHR ''-'' # r) = CHR ''-'' # r" for r
    using skip_space[OF assms(1), of _ r] by (simp_all add: isspace_def)
  note c = isspace_not[OF assms(2)]
  show "scan_lf (ws @ ''nan'' @ c # rest) = Inr (Some NaN, c # rest)"
    using c by (simp add: scan_lf_def 1 scan_sign_def nan_word_def starts_paren_def)
  show "scan_lf (ws @ ''inf'' @ c # rest) = Inr (Some PlusInf, c # rest)"
    using c by (simp add: scan_lf_def 1 scan_sign_def nan_word_def inf_word_def)
  show "scan_lf (ws @ ''-inf'' @ c # rest) = Inr (Some MinusInf, c # rest)"
    using c by (simp add: scan_lf_def 1 scan_sign_def nan_word_def inf_word_def)
qed

lemma cents_split:
  "real (n div 100) + real (nat_of_digits [digit_char (n mod 100 div 10), digit_char (n mod 10)]) / 10 ^ 2
     = real n / 100"
proof -
  have d: "n mod 100 div 10 < 10" "n mod 10 < 10" by simp_all
  have "nat_of_digits [digit_char (n mod 100 div 10), digit_char (n mod 10)] = 10 * (n mod 100 div 10) + n mod 10"
    by (simp add: nat_of_digits_def digit_char_props(2)[OF d(1)] digit_char_props(2)[OF d(2)])
  also have "\<dots> = n mod 100"
    using div_mult_mod_eq[of "n mod 100" 10] mod_mod_cancel[of 10 100 n] by simp
  finally have e: "nat_of_digits [digit_char (n mod 100 div 10), digit_char (n mod 10)] = n mod 100" .
  have "real n = 100 * real (n div 100) + real (n mod 100)"
    by (metis mult_div_mod_eq of_nat_add of_nat_mult of_nat_numeral)
  then show ?thesis
    by (simp add: e field_simps)
qed

lemma scan_lf_fmt_2f_finite:
  assumes "list_all isspace ws" "isspace c"
  shows "scan_lf (ws @ fmt_2f (Finite x) @ c # rest) = Inr (Some (round2 (Finite x)), c # rest)"
proof -
  let ?n = "cents x"
  let ?ip = "show_nat (?n div 100)"
  let ?fp = "[digit_char (?n mod 100 div 10), digit_char (?n mod 10)]"
  let ?sg = "if x < 0 then ''-'' else []"
  have d: "?n mod 100 div 10 < 10" "?n mod 10 < 10" by simp_all
  have fp: "list_all isdigit ?fp"
    by (simp add: digit_char_props(1)[OF d(1)] digit_char_props(1)[OF d(2)])
  have shape: "ws @ fmt_2f (Finite x) @ c # rest = ws @ ?sg @ ?ip @ CHR ''.'' # ?fp @ c # rest"
    by simp
  have val: "real (nat_of_digits ?ip) + real (nat_of_digits ?fp) / 10 ^ length ?fp = real ?n / 100"
    using cents_split[of ?n] by (simp add: nat_of_digits_show_nat)
  have "scan_lf (ws @ ?sg @ ?ip @ CHR ''.'' # ?fp @ c # rest) =
      Inr (Some (mk_double (x < 0)
         (real (nat_of_digits ?ip) + real (nat_of_digits ?fp) / 10 ^ length ?fp)), c # rest)"
    by (rule scan_lf_plain[OF assms(1) show_nat_digits show_nat_nonempty fp assms(2) refl])
  also have "mk_double (x < 0)
         (real (nat_of_digits ?ip) + real (nat_of_digits ?fp) / 10 ^ length ?fp) = round2 (Finite x)"
    unfolding val by simp
  finally show ?thesis
    unfolding shape .
qed

lemma scan_lf_fmt_2f:
  assumes "list_all isspace ws" "isspace c"
  shows "scan_lf (ws @ fmt_2f x @ c # rest) = Inr (Some (round2 x), c # rest)"
proof (cases x)
  case (Finite v)
  then show ?thesis
    using scan_lf_fmt_2f_finite[OF assms] by simp
next
  case NegZero
  have "scan_lf (ws @ ''-'' @ ''0'' @ CHR ''.'' # ''00'' @ c # rest) =
      Inr (Some (mk_double True (real (nat_of_digits ''0'') + real (nat_of_digits ''00'') / 10 ^ length ''00'')),
           c # rest)"
    by (rule scan_lf_plain[OF assms(1) _ _ _ assms(2)]) (simp_all add: isdigit_def)
  then show ?thesis
    using NegZero by (simp add: nat_of_digits_def digit_val_def)
next
  case PlusInf
  then show ?thesis
    using scan_lf_word(2)[OF assms] by simp
next
  case MinusInf
  then show ?thesis
    using scan_lf_word(3)[OF assms] by simp
next
  case NaN
  then show ?thesis
    using scan_lf_word(1)[OF assms] by simp
qed

lemma cents_near: "\<bar>real (cents x) / 100 - \<bar>x\<bar>\<bar> \<le> 1 / 200"
proof -
  define y where "y = \<bar>x\<bar> * 100"
  define c where "c = real (cents x)"
  have "0 \<le> round_half_even y"
    by (rule round_half_even_nonneg) (simp add: y_def)
  then have "c = real_of_int (round_half_even y)"
    by (simp add: c_def cents_def y_def)
  then have "\<bar>c - \<bar>x\<bar> * 100\<bar> \<le> 1 / 2"
    using round_half_even_near[of y] by (simp add: y_def)
  then show ?thesis
    unfolding c_def by argo
qed

lemma round2_near:
  "d = Finite x \<Longrightarrow> \<exists>r. \<bar>r - \<bar>x\<bar>\<bar> \<le> 1 / 200 \<and> round2 d = mk_double (x < 0) r"
  using cents_near[of x] by auto


subsection \<open>The loop of \<open>load_data\<close>\<close>


lemma isspace_simps: "isspace (CHR '' '')" "isspace (CHR ''\<newline>'')"
  by (simp_all add: isspace_def)

lemma load_loop_stop:
  "\<not> (i < tx_count atm \<and> i < MAX_TX) \<Longrightarrow> load_loop atm f i = Inr (atm, i)"
  by (subst load_loop.simps) auto

lemma load_loop_line:
  assumes "i < tx_count atm" "i < MAX_TX" "token_ok 10 (type t)"
  shows "load_loop atm (CHR ''\<newline>'' # tx_line t @ rest) i =
         load_loop (atm\<lparr>txs := (txs atm)(nat i := round_tx t)\<rparr>) (CHR ''\<newline>'' # rest) (i + 1)"
proof -
  have 1: "scan_s 10 (CHR ''\<newline>'' # tx_line t @ rest) =
             Inr (Some (type t), CHR '' '' # fmt_2f (amount t) @ CHR ''\<newline>'' # rest)"
    using scan_s_token[of "''\<newline>''" 10 "type t" "CHR '' ''" "fmt_2f (amount t) @ CHR ''\<newline>'' # rest"] assms(3)
    by (simp add: tx_line_def isspace_simps)
  have 2: "scan_lf (CHR '' '' # fmt_2f (amount t) @ CHR ''\<newline>'' # rest) =
             Inr (Some (round2 (amount t)), CHR ''\<newline>'' # rest)"
    using scan_lf_fmt_2f[of "'' ''" "CHR ''\<newline>''" "amount t" rest] by (simp add: isspace_simps)
  show ?thesis
    using assms(1,2) by (subst load_loop.simps) (simp add: 1 2 round_tx_def)
qed

lemma load_loop_lines:
  assumes "m = nat (min (tx_count atm) MAX_TX)" "k \<le> m"
    "\<forall>j. k \<le> j \<and> j < m \<longrightarrow> token_ok 10 (type (t j))"
  shows "load_loop atm (CHR ''\<newline>'' # concat (map (\<lambda>j. tx_line (t j)) [k..<m])) (int k) =
         Inr (atm\<lparr>txs := (\<lambda>j. if k \<le> j \<and> j < m then round_tx (t j) else txs atm j)\<rparr>, int m)"
  using assms
proof (induction "m - k" arbitrary: k atm)
  case 0
  then have km: "k = m" by simp
  have "\<not> (int m < tx_count atm \<and> int m < MAX_TX)"
    using "0.prems"(1) by auto
  moreover have "(\<lambda>j. if m \<le> j \<and> j < m then round_tx (t j) else txs atm j) = txs atm"
    by (auto simp: fun_eq_iff)
  ultimately show ?case
    by (simp add: km load_loop_stop)
next
  case (Suc n)
  then have lt: "k < m" by simp
  have cond: "int k < tx_count atm" "int k < MAX_TX"
    using lt Suc.prems(1) by auto
  have tok: "token_ok 10 (type (t k))"
    using Suc.prems(3) lt by simp
  let ?atm = "atm\<lparr>txs := (txs atm)(k := round_tx (t k))\<rparr>"
  have "load_loop atm (CHR ''\<newline>'' # concat (map (\<lambda>j. tx_line (t j)) [k..<m])) (int k) =
        load_loop ?atm (CHR ''\<newline>'' # concat (map (\<lambda>j. tx_line (t j)) [Suc k..<m])) (int (Suc k))"
    using load_loop_line[OF cond tok, of "concat (map (\<lambda>j. tx_line (t j)) [Suc k..<m])"] lt
    by (simp add: upt_conv_Cons add.commute)
  also have "\<dots> = Inr (?atm\<lparr>txs := (\<lambda>j. if Suc k \<le> j \<and> j < m then round_tx (t j) else txs ?atm j)\<rparr>, int m)"
  proof (rule Suc.hyps(1))
    show "n = m - Suc k" using Suc.hyps(2) by simp
    show "m = nat (min (tx_count ?atm) MAX_TX)" using Suc.prems(1) by simp
    show "Suc k \<le> m" using lt by simp
    show "\<forall>j. Suc k \<le> j \<and> j < m \<longrightarrow> token_ok 10 (type (t j))" using Suc.prems(3) by simp
  qed
  also have "?atm\<lparr>txs := (\<lambda>j. if Suc k \<le> j \<and> j < m then round_tx (t j) else txs ?atm j)\<rparr> =
             atm\<lparr>txs := (\<lambda>j. if k \<le> j \<and> j < m then round_tx (t j) else txs atm j)\<rparr>"
    using lt by (auto simp: fun_eq_iff)
  finally show ?case .
qed

lemma header_scan:
  assumes "token_ok PIN_LENGTH (pin atm)" "- (2 ^ 31) \<le> tx_count atm" "tx_count atm < 2 ^ 31"
  shows "scan_lf (header_line atm @ rest) =
           Inr (Some (round2 (balance atm)), CHR '' '' # pin atm @ CHR '' '' # show_int (tx_count atm) @ CHR ''\<newline>'' # rest)"
    and "scan_s PIN_LENGTH (CHR '' '' # pin atm @ CHR '' '' # show_int (tx_count atm) @ CHR ''\<newline>'' # rest) =
           Inr (Some (pin atm), CHR '' '' # show_int (tx_count atm) @ CHR ''\<newline>'' # rest)"
    and "scan_d (CHR '' '' # show_int (tx_count atm) @ CHR ''\<newline>'' # rest) =
           Inr (Some (tx_count atm), CHR ''\<newline>'' # rest)"
proof -
  show "scan_lf (header_line atm @ rest) =
           Inr (Some (round2 (balance atm)), CHR '' '' # pin atm @ CHR '' '' # show_int (tx_count atm) @ CHR ''\<newline>'' # rest)"
    using scan_lf_fmt_2f[of "[]" "CHR '' ''" "balance atm"
        "pin atm @ CHR '' '' # show_int (tx_count atm) @ CHR ''\<newline>'' # rest"]
    by (simp add: header_line_def isspace_simps)
  show "scan_s PIN_LENGTH (CHR '' '' # pin atm @ CHR '' '' # show_int (tx_count atm) @ CHR ''\<newline>'' # rest) =
           Inr (Some (pin atm), CHR '' '' # show_int (tx_count atm) @ CHR ''\<newline>'' # rest)"
    using scan_s_token[of "'' ''" PIN_LENGTH "pin atm" "CHR '' ''" "show_int (tx_count atm) @ CHR ''\<newline>'' # rest"]
      assms(1)
    by (simp add: isspace_simps)
  show "scan_d (CHR '' '' # show_int (tx_count atm) @ CHR ''\<newline>'' # rest) =
           Inr (Some (tx_count atm), CHR ''\<newline>'' # rest)"
    using scan_d_show_int[of "'' ''" "CHR ''\<newline>''" "tx_count atm" rest] assms(2,3)
    by (simp add: isspace_simps not_isdigit)
qed

lemma save_load:
  assumes "writable d" "token_ok PIN_LENGTH (pin atm)"
    "- (2 ^ 31) \<le> tx_count atm" "tx_count atm < 2 ^ 31"
    "\<forall>j. j < nat (min (tx_count atm) MAX_TX) \<longrightarrow> token_ok 10 (type (txs atm j))"
  shows "load_data atm0 (save_data atm d) =
     Inr (1, atm0\<lparr>balance := round2 (balance atm), pin := pin atm,
                 txs := (\<lambda>j. if j < nat (min (tx_count atm) MAX_TX) then round_tx (txs atm j)
                              else txs atm0 j),
                 tx_count := tx_count atm\<rparr>)"
proof -
  let ?m = "nat (min (tx_count atm) MAX_TX)"
  let ?body = "concat (map (\<lambda>j. tx_line (txs atm j)) [0..<?m])"
  let ?atm1 = "atm0\<lparr>balance := round2 (balance atm), pin := pin atm, tx_count := tx_count atm\<rparr>"
  have c: "content (save_data atm d) = Some (header_line atm @ ?body)"
    using assms(1) by (simp add: save_data_def)
  have "load_loop ?atm1 (CHR ''\<newline>'' # ?body) (int 0) =
      Inr (?atm1\<lparr>txs := (\<lambda>j. if 0 \<le> j \<and> j < ?m then round_tx (txs atm j) else txs ?atm1 j)\<rparr>, int ?m)"
    by (rule load_loop_lines) (use assms(5) in simp_all)
  moreover have "(\<lambda>j. if 0 \<le> j \<and> j < ?m then round_tx (txs atm j) else txs ?atm1 j) =
      (\<lambda>j. if j < ?m then round_tx (txs atm j) else txs atm0 j)"
    by (simp add: fun_eq_iff)
  ultimately have l: "load_loop ?atm1 (CHR ''\<newline>'' # ?body) 0 =
      Inr (?atm1\<lparr>txs := (\<lambda>j. if j < ?m then round_tx (txs atm j) else txs atm0 j)\<rparr>, int ?m)"
    by simp
  show ?thesis
    by (simp add: load_data_def c header_scan[OF assms(2,3,4)] l)
qed

lemma ledger_round:
  assumes "tx_count atm' = tx_count atm"
    "\<forall>j. j < nat (min (tx_count atm) MAX_TX) \<longrightarrow> txs atm' j = round_tx (txs atm j)"
  shows "ledger atm' = map round_tx (ledger atm)"
  using assms by (simp add: ledger_def)


lemma cents_values:
  "cents 1500 = 150000" "cents 500 = 50000"
  "cents (1152921504606847 / 1152921504606846976) = 0"
  "cents (4398050909150511 / 4398046511104) = 100000"
  by (simp_all add: cents_def round_half_even_def Let_def)

lemma round2_values:
  "round2 (Finite 1500) = Finite 1500" "round2 (Finite 500) = Finite 500"
  "round2 (Finite (1152921504606847 / 1152921504606846976)) = Finite 0"
  "round2 (Finite (4398050909150511 / 4398046511104)) = Finite 1000"
  by (simp_all add: cents_values)

lemma token_ok_examples:
  "token_ok PIN_LENGTH ''1234''" "token_ok 10 ''Deposit''" "token_ok 10 ''Withdraw''"
  by (simp_all add: token_ok_def isspace_def)

lemma deposited_atm_fields:
  "balance deposited_atm = Finite 1500" "pin deposited_atm = ''1234''" "tx_count deposited_atm = 1"
  "ledger deposited_atm = [\<lparr>type = ''Deposit'', amount = Finite 500\<rparr>]"
  by (simp_all add: deposited_atm_def fresh_atm_def init_default_def ledger_def)

lemma ten_deposits:
  "blank_txs
     (0 := \<lparr>type = ''Deposit'', amount = Finite 1\<rparr>,
      Suc 0 := \<lparr>type = ''Deposit'', amount = Finite 1\<rparr>,
      2 := \<lparr>type = ''Deposit'', amount = Finite 1\<rparr>,
      3 := \<lparr>type = ''Deposit'', amount = Finite 1\<rparr>,
      4 := \<lparr>type = ''Deposit'', amount = Finite 1\<rparr>,
      5 := \<lparr>type = ''Deposit'', amount = Finite 1\<rparr>,
      6 := \<lparr>type = ''Deposit'', amount = Finite 1\<rparr>,
      7 := \<lparr>type = ''Deposit'', amount = Finite 1\<rparr>,
      8 := \<lparr>type = ''Deposit'', amount = Finite 1\<rparr>,
      9 := \<lparr>type = ''Deposit'', amount = Finite 1\<rparr>) =
   (\<lambda>j. if j < 10 then \<lparr>type = ''Deposit'', amount = Finite 1\<rparr> else blank_txs j)"
proof
  fix j :: nat
  show "(blank_txs
     (0 := \<lparr>type = ''Deposit'', amount = Finite 1\<rparr>,
      Suc 0 := \<lparr>type = ''Deposit'', amount = Finite 1\<rparr>,
      2 := \<lparr>type = ''Deposit'', amount = Finite 1\<rparr>,
      3 := \<lparr>type = ''Deposit'', amount = Finite 1\<rparr>,
      4 := \<lparr>type = ''Deposit'', amount = Finite 1\<rparr>,
      5 := \<lparr>type = ''Deposit'', amount = Finite 1\<rparr>,
      6 := \<lparr>type = ''Deposit'', amount = Finite 1\<rparr>,
      7 := \<lparr>type = ''Deposit'', amount = Finite 1\<rparr>,
      8 := \<lparr>type = ''Deposit'', amount = Finite 1\<rparr>,
      9 := \<lparr>type = ''Deposit'', amount = Finite 1\<rparr>)) j =
   (if j < 10 then \<lparr>type = ''Deposit'', amount = Finite 1\<rparr> else blank_txs j)"
  proof (cases "j < 10")
    case True
    from digit_cases[OF this] show ?thesis by auto
  next
    case False
    then show ?thesis by simp
  qed
qed

lemma load_11: "load_data fresh_atm (empty_disk\<lparr>content := Some file_11\<rparr>) = Inr (1, loaded_11)"
  by (simp add: load_data_def file_11_def scan_defs load_loop.simps loaded_11_def fresh_atm_def
      init_default_def empty_disk_def ten_deposits)

lemma load_short:
  "load_data fresh_atm (empty_disk\<lparr>content := Some file_short\<rparr>) = Inr (1, loaded_short)"
  by (simp add: load_data_def file_short_def scan_defs load_loop.simps loaded_short_def fresh_atm_def
      init_default_def empty_disk_def)

lemma ledger_short:
  "ledger loaded_short =
     [\<lparr>type = ''Deposit'', amount = Finite 5\<rparr>, \<lparr>type = [], amount = Finite 0\<rparr>,
      \<lparr>type = [], amount = Finite 0\<rparr>]"
  by (simp add: ledger_def loaded_short_def fresh_atm_def init_default_def blank_txs_def upt_rec)

lemma load_disk_11: "load_data fresh_atm disk_11 = Inr (1, loaded_11)"
  unfolding disk_11_def by (rule load_11)

lemma load_disk_short: "load_data fresh_atm disk_short = Inr (1, loaded_short)"
  unfolding disk_short_def by (rule load_short)

lemma small_atm_reached:
  "deposit fresh_atm empty_disk ''0.001\<newline>'' =
     Inr (Success, small_atm, save_data small_atm empty_disk, Some ''\<newline>'')"
proof -
  have "fresh_atm\<lparr>balance := Finite (4398050909150511 / 4398046511104),
      txs := blank_txs(0 := \<lparr>type = ''Deposit'',
                             amount = Finite (1152921504606847 / 1152921504606846976)\<rparr>),
      tx_count := 1\<rparr> = small_atm"
    by (simp add: small_atm_def)
  moreover have "\<not> Finite (1152921504606847 / 1152921504606846976) \<le> 0"
    by (simp add: double_ops)
  ultimately show ?thesis
    by (simp add: deposit_def scan_lf_small add_transaction_def fresh_atm_fields sum_small)
qed

subsection \<open>Saving and loading\<close>

text \<open>
  Claim C6, as amended. Let the PIN and the types of the ledger's records be tokens that
  fit their buffers, the count fit an \<open>int\<close>, and the file open for writing. Then
  \<open>save_data\<close> followed by \<open>load_data\<close> (into any struct) succeeds and returns the
  balance to two decimal places (for a finite balance, the double nearest to a number
  at most 1/200 from the balance saved), the same PIN, the same count, and the ledger's
  records in the same order with the same types and their amounts to two decimal places.
\<close>

theorem save_then_load:
  assumes "writable d" and "token_ok PIN_LENGTH (pin atm)"
    and "- (2 ^ 31) \<le> tx_count atm" and "tx_count atm < 2 ^ 31"
    and "list_all (\<lambda>t. token_ok 10 (type t)) (ledger atm)"
  shows "\<exists>atm'. load_data atm0 (save_data atm d) = Inr (1, atm') \<and>
           balance atm' = round2 (balance atm) \<and>
           (\<forall>x. balance atm = Finite x \<longrightarrow>
              (\<exists>r. \<bar>r - \<bar>x\<bar>\<bar> \<le> 1 / 200 \<and> balance atm' = mk_double (x < 0) r)) \<and>
           pin atm' = pin atm \<and> tx_count atm' = tx_count atm \<and>
           ledger atm' = map round_tx (ledger atm)"
proof -
  let ?m = "nat (min (tx_count atm) MAX_TX)"
  let ?atm' = "atm0\<lparr>balance := round2 (balance atm), pin := pin atm,
                 txs := (\<lambda>j. if j < ?m then round_tx (txs atm j) else txs atm0 j),
                 tx_count := tx_count atm\<rparr>"
  have tok: "\<forall>j. j < ?m \<longrightarrow> token_ok 10 (type (txs atm j))"
    using assms(5) by (simp add: ledger_def list_all_iff)
  have "load_data atm0 (save_data atm d) = Inr (1, ?atm')"
    by (rule save_load[OF assms(1-4) tok])
  moreover have "ledger ?atm' = map round_tx (ledger atm)"
    by (rule ledger_round) simp_all
  moreover have "\<forall>x. balance atm = Finite x \<longrightarrow>
      (\<exists>r. \<bar>r - \<bar>x\<bar>\<bar> \<le> 1 / 200 \<and> balance ?atm' = mk_double (x < 0) r)"
    using round2_near[of "balance atm"] by simp
  ultimately show ?thesis
    by (intro exI[of _ ?atm']) simp
qed

theorem save_then_load_witness:
  "writable empty_disk \<and> token_ok PIN_LENGTH (pin deposited_atm) \<and>
   list_all (\<lambda>t. token_ok 10 (type t)) (ledger deposited_atm) \<and>
   (\<exists>atm'. load_data fresh_atm (save_data deposited_atm empty_disk) = Inr (1, atm') \<and>
      balance atm' = Finite 1500 \<and> pin atm' = ''1234'' \<and> tx_count atm' = 1 \<and>
      ledger atm' = [\<lparr>type = ''Deposit'', amount = Finite 500\<rparr>])"
proof -
  have h: "writable empty_disk" "token_ok PIN_LENGTH (pin deposited_atm)"
    "- (2 ^ 31) \<le> tx_count deposited_atm" "tx_count deposited_atm < 2 ^ 31"
    "list_all (\<lambda>t. token_ok 10 (type t)) (ledger deposited_atm)"
    by (simp_all add: empty_disk_def deposited_atm_fields token_ok_examples)
  show ?thesis
    using save_then_load[OF h, of fresh_atm] h
    by (auto simp: deposited_atm_fields cents_values round_tx_def)
qed

text \<open>
  Claim C6 as stated fails for the ledger's amounts: after a deposit of 0.001 the ledger
  holds the double nearest to 1/1000, the file holds \<open>0.00\<close>, and the ledger loaded
  holds 0.
\<close>

theorem save_then_load_counterexample:
  "deposit fresh_atm empty_disk ''0.001\<newline>'' =
     Inr (Success, small_atm, save_data small_atm empty_disk, Some ''\<newline>'') \<and>
   load_data fresh_atm (save_data small_atm empty_disk) = Inr (1, small_atm_reloaded) \<and>
   ledger small_atm =
     [\<lparr>type = ''Deposit'', amount = Finite (1152921504606847 / 1152921504606846976)\<rparr>] \<and>
   ledger small_atm_reloaded = [\<lparr>type = ''Deposit'', amount = Finite 0\<rparr>]"
proof -
  have h: "writable empty_disk" "token_ok PIN_LENGTH (pin small_atm)"
    "- (2 ^ 31) \<le> tx_count small_atm" "tx_count small_atm < 2 ^ 31"
    "\<forall>j. j < nat (min (tx_count small_atm) MAX_TX) \<longrightarrow> token_ok 10 (type (txs small_atm j))"
    by (simp_all add: empty_disk_def small_atm_def fresh_atm_fields token_ok_examples)
  have f: "(\<lambda>j. if j < nat (min (tx_count small_atm) MAX_TX) then round_tx (txs small_atm j)
                  else txs fresh_atm j) = blank_txs(0 := \<lparr>type = ''Deposit'', amount = Finite 0\<rparr>)"
    by (auto simp: fun_eq_iff small_atm_def fresh_atm_fields round_tx_def cents_values)
  have "load_data fresh_atm (save_data small_atm empty_disk) = Inr (1, small_atm_reloaded)"
    unfolding save_load[OF h, of fresh_atm] f
    by (simp add: small_atm_def small_atm_reloaded_def cents_values)
  then show ?thesis
    using small_atm_reached
    by (simp add: ledger_def small_atm_def small_atm_reloaded_def fresh_atm_def init_default_def)
qed




text \<open>
  Claim C5, at a file whose header counts eleven transactions: \<open>load_data\<close> returns 1
  with \<open>tx_count = 11\<close>, above \<open>MAX_TX\<close>, and \<open>add_transaction\<close> leaves the count at 11.
\<close>

theorem load_count_exceeds_capacity:
  "load_data fresh_atm disk_11 = Inr (1, loaded_11) \<and> tx_count loaded_11 = 11 \<and>
   MAX_TX < tx_count loaded_11 \<and>
   map_sum id tx_count (add_transaction loaded_11 ''Deposit'' (Finite 1)) = Inr 11"
  by (simp add: load_disk_11) (simp add: loaded_11_def add_transaction_def)

text \<open>
  Claim C7, at a file whose header counts three transactions and whose second line has
  no amount: \<open>load_data\<close> returns 1 and has stored the first record, but \<open>tx_count\<close> is
  3 and the ledger has three entries, the second and third being what the struct held
  before.
\<close>

theorem load_short_keeps_count:
  "load_data fresh_atm disk_short = Inr (1, loaded_short) \<and> tx_count loaded_short = 3 \<and>
   txs loaded_short 0 = \<lparr>type = ''Deposit'', amount = Finite 5\<rparr> \<and>
   txs loaded_short 1 = txs fresh_atm 1 \<and> txs loaded_short 2 = txs fresh_atm 2 \<and>
   ledger loaded_short =
     [\<lparr>type = ''Deposit'', amount = Finite 5\<rparr>, \<lparr>type = [], amount = Finite 0\<rparr>, \<lparr>type = [], amount = Finite 0\<rparr>]"
  by (simp add: load_disk_short ledger_short) (simp add: loaded_short_def fresh_atm_fields)

subsection \<open>The count under the commands\<close>

lemma add_transaction_count:
  "add_transaction atm ty a = Inr atm' \<Longrightarrow> tx_count atm \<le> MAX_TX \<Longrightarrow> tx_count atm' \<le> MAX_TX"
  by (auto simp: add_transaction_def split: if_splits)

lemma commands_keep_count_bounded:
  assumes "tx_count atm \<le> MAX_TX"
    and "deposit atm d cin = Inr (oc, atm', d', c') \<or> withdraw atm d cin = Inr (oc, atm', d', c') \<or>
         change_pin atm d cin = Inr (oc, atm', d', c')"
  shows "tx_count atm' \<le> MAX_TX"
  using assms
  by (auto simp: deposit_def withdraw_def change_pin_def
      split: sum.splits option.splits if_splits dest!: add_transaction_count)


end
